theory Spec2Isabelle
  imports Main
begin

section \<open>Python strings and containers used by the validator\<close>

text \<open>
  Strings are character lists. The helpers below are the Python string methods that
  \<^verbatim>\<open>file_validator.py\<close> calls: \<^verbatim>\<open>startswith\<close>, \<^verbatim>\<open>endswith\<close>, \<^verbatim>\<open>lower\<close>, \<^verbatim>\<open>in\<close> on
  strings, \<^verbatim>\<open>split('\n')\<close>, \<^verbatim>\<open>split()\<close>, \<^verbatim>\<open>os.path.splitext\<close>, \<^verbatim>\<open>os.path.dirname\<close> and
  \<^verbatim>\<open>os.path.join\<close>.
\<close>

definition startswith :: "string \<Rightarrow> string \<Rightarrow> bool" where
  "startswith s p = (take (length p) s = p)"

definition endswith :: "string \<Rightarrow> string \<Rightarrow> bool" where
  "endswith s p = (length p \<le> length s \<and> drop (length s - length p) s = p)"

definition lower_char :: "char \<Rightarrow> char" where
  "lower_char c =
     (let n = (of_char c :: nat) in if 65 \<le> n \<and> n \<le> 90 then char_of (n + 32) else c)"

definition lower :: "string \<Rightarrow> string" where
  "lower s = map lower_char s"

fun contains :: "string \<Rightarrow> string \<Rightarrow> bool" where
  "contains [] p = (p = [])"
| "contains (c # cs) p = (startswith (c # cs) p \<or> contains cs p)"

text \<open>\<^verbatim>\<open>s.split(sep)\<close> for a one-character separator: the pieces between the separators,
  empty pieces included.\<close>

fun split_on :: "char \<Rightarrow> string \<Rightarrow> string list" where
  "split_on sep [] = [[]]"
| "split_on sep (c # cs) =
     (if c = sep then [] # split_on sep cs
      else (case split_on sep cs of
              [] \<Rightarrow> [[c]]
            | w # ws \<Rightarrow> (c # w) # ws))"

text \<open>The ASCII characters for which \<^verbatim>\<open>str.isspace\<close> holds.\<close>

definition is_space :: "char \<Rightarrow> bool" where
  "is_space c = (c \<in> set [CHR '' '', CHR 0x09, CHR 0x0A, CHR 0x0B, CHR 0x0C, CHR 0x0D,
                              CHR 0x1C, CHR 0x1D, CHR 0x1E, CHR 0x1F])"

text \<open>\<^verbatim>\<open>s.split()\<close>: the maximal runs of non-whitespace characters.\<close>

fun split_ws_acc :: "string \<Rightarrow> string \<Rightarrow> string list" where
  "split_ws_acc w [] = (if w = [] then [] else [w])"
| "split_ws_acc w (c # cs) =
     (if is_space c then (if w = [] then split_ws_acc [] cs else w # split_ws_acc [] cs)
      else split_ws_acc (w @ [c]) cs)"

definition split_ws :: "string \<Rightarrow> string list" where
  "split_ws s = split_ws_acc [] s"

text \<open>\<^verbatim>\<open>s.rfind(c)\<close> as an option: the index of the last occurrence.\<close>

fun rfind :: "char \<Rightarrow> string \<Rightarrow> nat option" where
  "rfind c [] = None"
| "rfind c (x # xs) =
     (case rfind c xs of
        Some i \<Rightarrow> Some (Suc i)
      | None \<Rightarrow> (if x = c then Some 0 else None))"

text \<open>\<^verbatim>\<open>os.path.splitext(p)[0]\<close>: the path without its last extension. The extension
  starts at the last dot of the last component, unless that component consists of
  leading dots only up to there.\<close>

definition splitext_root :: "string \<Rightarrow> string" where
  "splitext_root p =
     (let filenameIndex = (case rfind (CHR ''/'') p of None \<Rightarrow> 0 | Some i \<Rightarrow> Suc i) in
      case rfind (CHR ''.'') p of
        None \<Rightarrow> p
      | Some dotIndex \<Rightarrow>
          if filenameIndex \<le> dotIndex
             \<and> (\<exists>c \<in> set (take (dotIndex - filenameIndex) (drop filenameIndex p)). c \<noteq> CHR ''.'')
          then take dotIndex p else p)"

fun rstrip_slash :: "string \<Rightarrow> string" where
  "rstrip_slash s = rev (dropWhile (\<lambda>c. c = CHR ''/'') (rev s))"

text \<open>\<^verbatim>\<open>os.path.dirname(p)\<close> of \<^verbatim>\<open>posixpath\<close>.\<close>

definition dirname :: "string \<Rightarrow> string" where
  "dirname p =
     (let i = (case rfind (CHR ''/'') p of None \<Rightarrow> 0 | Some i \<Rightarrow> Suc i);
          head = take i p
      in if head \<noteq> [] \<and> (\<exists>c \<in> set head. c \<noteq> CHR ''/'') then rstrip_slash head else head)"

text \<open>\<^verbatim>\<open>os.path.join(a, b)\<close> of \<^verbatim>\<open>posixpath\<close>, for two components.\<close>

definition path_join :: "string \<Rightarrow> string \<Rightarrow> string" where
  "path_join a b =
     (if startswith b ''/'' then b
      else if a = [] \<or> endswith a ''/'' then a @ b
      else a @ ''/'' @ b)"

text \<open>
  A Python \<^verbatim>\<open>set\<close> is modelled by a list without repetitions whose \<^const>\<open>set\<close> is the
  value of the Python set; the list order stands for the iteration order, which Python
  leaves unspecified. \<^verbatim>\<open>add\<close>, \<^verbatim>\<open>union\<close>, \<^verbatim>\<open>intersection\<close> and \<^verbatim>\<open>-\<close> are:
\<close>

definition set_add :: "'a \<Rightarrow> 'a list \<Rightarrow> 'a list" where
  "set_add x xs = (if x \<in> set xs then xs else xs @ [x])"

definition set_union :: "'a list \<Rightarrow> 'a list \<Rightarrow> 'a list" where
  "set_union xs ys = xs @ filter (\<lambda>y. y \<notin> set xs) (remdups ys)"

definition set_intersection :: "'a list \<Rightarrow> 'a list \<Rightarrow> 'a list" where
  "set_intersection xs ys = filter (\<lambda>x. x \<in> set ys) xs"

definition set_minus :: "'a list \<Rightarrow> 'a list \<Rightarrow> 'a list" where
  "set_minus xs ys = filter (\<lambda>x. x \<notin> set ys) xs"

section \<open>Data model\<close>

text \<open>Exceptions that the code of \<^verbatim>\<open>file_validator.py\<close> itself can raise: an index
  out of range (\<^verbatim>\<open>file_data[1]\<close>, \<^verbatim>\<open>file_data[2]\<close>, \<^verbatim>\<open>glob.glob(...)[0]\<close>) and a
  missing attribute or method (\<^verbatim>\<open>.get\<close> on a non-dictionary, \<^verbatim>\<open>.group\<close> on \<^verbatim>\<open>None\<close>,
  \<^verbatim>\<open>self.conf_json_validator\<close> when it was never created).\<close>

datatype error = IndexError | AttributeError

text \<open>An element of the modified set: a path, or the pair \<^verbatim>\<open>(old_path, new_path)\<close> of a
  rename.\<close>

datatype entry = Path string | Renamed string string

fun entry_old_path :: "entry \<Rightarrow> string option" where
  "entry_old_path (Path p) = None"
| "entry_old_path (Renamed old new) = Some old"

fun entry_path :: "entry \<Rightarrow> string" where
  "entry_path (Path p) = p"
| "entry_path (Renamed old new) = new"

text \<open>A loaded YAML document: \<^verbatim>\<open>get_yaml\<close> returns a dictionary, here an association
  list from keys to values; a value is a scalar (\<open>YStr\<close>) or again a dictionary.\<close>

datatype yaml = YStr string | YDict "(string \<times> yaml) list"

text \<open>The regular-expression lists of \<^verbatim>\<open>common/constants.py\<close> that are passed to
  \<^verbatim>\<open>checked_type\<close> (\<^verbatim>\<open>[SCHEMA_REGEX]\<close> is the one-element list built in place), and the
  single expressions passed to \<^verbatim>\<open>re.match\<close>.\<close>

datatype regex_list =
  CODE_FILES_REGEX | OLD_YML_FORMAT_FILE | CHECKED_TYPES_REGEXES | SCHEMA_REGEX_LIST
| IGNORED_TYPES_REGEXES

datatype regex =
  INTEGRATION_REGEX | INTEGRATION_YML_REGEX | BETA_INTEGRATION_REGEX
| BETA_INTEGRATION_YML_REGEX | SCRIPT_REGEX | SCRIPT_YML_REGEX | SCRIPT_PY_REGEX
| SCRIPT_JS_REGEX | IMAGE_REGEX | INCIDENT_FIELD_REGEX | TEST_PLAYBOOK_REGEX

text \<open>One call of a method of a validator object, with the constructor arguments that
  the call site passes: the file path, and where given the old path of a rename and the
  previous git branch (\<open>None\<close> for an argument left to its default).\<close>

datatype check_call =
  Structure_is_file_valid string bool bool "bool option"
| Structure_is_valid_scheme string bool
| IDSet_is_file_valid_in_set string
| IDSet_is_file_has_used_id string
| Image_is_valid string
| Description_is_valid string
| Description_is_valid_beta_description string
| Integration_is_backward_compatible string "string option" "string option"
| Integration_is_valid_integration string "string option" "string option"
| Integration_is_valid_beta_integration string "string option" bool
| Script_is_backward_compatible string "string option" string
| Script_is_valid_script string "string option" string
| IncidentField_is_valid string "string option" "string option"
| IncidentField_is_backward_compatible string "string option" "string option"
| ConfJson_is_test_in_conf_json string
| ConfJson_is_valid_conf_json

text \<open>What a run does, in order: the shell commands it runs, the validator methods it
  calls, and every assignment to \<^verbatim>\<open>self._is_valid\<close>.\<close>

datatype event = RunCommand string | Call check_call | SetValid bool

text \<open>
  The collaborators of \<^verbatim>\<open>FilesValidator\<close> that live in other modules of the package
  (\<^verbatim>\<open>common/constants.py\<close>, \<^verbatim>\<open>common/tools.py\<close>, the validator classes, the unifier) and
  the operating system (git, the file system) are parameters of the model:
  \<^item> \<open>checked_type\<close>: \<^verbatim>\<open>checked_type(path, regex_list)\<close>;
  \<^item> \<open>re_match\<close>: \<^verbatim>\<open>re.match(REGEX, path, re.IGNORECASE)\<close> is not \<^verbatim>\<open>None\<close>;
  \<^item> \<open>get_yaml\<close>: the document loaded from a path;
  \<^item> \<open>KNOWN_FILE_STATUSES\<close>, \<open>CHECKED_TYPES_REGEXES_src\<close> (the expressions as text),
    \<open>DIR_LIST\<close>, \<open>PACKAGE_SUPPORTING_DIRECTORIES\<close>: constants;
  \<^item> \<open>filter_packagify_changes\<close>: the post-processing of the modified, added and deleted
    sets;
  \<^item> \<open>run_command\<close>: the output of a shell command;
  \<^item> \<open>check\<close>: the boolean answer of a validator method;
  \<^item> \<open>get_script_package_data\<close>: the yml path found by \<^verbatim>\<open>Unifier(dir)\<close>;
  \<^item> \<open>collect_ids\<close>, \<open>os_walk\<close>, \<open>glob\<close>: as in Python.
\<close>

record env =
  checked_type :: "regex_list \<Rightarrow> string \<Rightarrow> bool"
  re_match :: "regex \<Rightarrow> string \<Rightarrow> bool"
  get_yaml :: "string \<Rightarrow> (string \<times> yaml) list"
  KNOWN_FILE_STATUSES :: "string list"
  CHECKED_TYPES_REGEXES_src :: "string list"
  DIR_LIST :: "string list"
  PACKAGE_SUPPORTING_DIRECTORIES :: "string list"
  filter_packagify_changes ::
    "entry list \<Rightarrow> string list \<Rightarrow> string list \<Rightarrow> string
       \<Rightarrow> entry list \<times> string list \<times> string list"
  run_command :: "string \<Rightarrow> string"
  check :: "check_call \<Rightarrow> bool"
  get_script_package_data :: "string \<Rightarrow> string"
  collect_ids :: "string \<Rightarrow> string"
  os_walk :: "string \<Rightarrow> (string \<times> string list \<times> string list) list"
  glob :: "string \<Rightarrow> string list"

text \<open>The four sets that the classification loop of \<^verbatim>\<open>get_modified_files\<close> fills.\<close>

record file_sets =
  modified_files_list :: "entry list"
  added_files_list :: "string list"
  deleted_files :: "string list"
  old_format_files :: "string list"

definition empty_sets :: file_sets where
  "empty_sets = \<lparr>modified_files_list = [], added_files_list = [], deleted_files = [],
                  old_format_files = []\<rparr>"

text \<open>The attributes of a \<^verbatim>\<open>FilesValidator\<close> object, with \<open>is_valid\<close> for
  \<^verbatim>\<open>self._is_valid\<close>, and the trace of the run so far. The two validator attributes exist
  exactly when their flags were set at construction.\<close>

record validator =
  branch_name :: string
  use_git :: bool
  prev_ver :: string
  is_valid :: bool
  is_backward_check :: bool
  is_circle :: bool
  print_ignored_files :: bool
  validate_conf_json :: bool
  validate_id_set :: bool
  trace :: "event list"

section \<open>Classifying the lines of a diff: \<^verbatim>\<open>get_modified_files\<close>\<close>

text \<open>\<^verbatim>\<open>xs[i]\<close>, raising \<^verbatim>\<open>IndexError\<close> out of range.\<close>

definition index :: "'a list \<Rightarrow> nat \<Rightarrow> error + 'a" where
  "index xs i = (if i < length xs then Inr (xs ! i) else Inl IndexError)"

text \<open>\<^verbatim>\<open>d.get(k, default)\<close> on an association list.\<close>

definition dict_get :: "(string \<times> yaml) list \<Rightarrow> string \<Rightarrow> yaml \<Rightarrow> yaml" where
  "dict_get d k dflt = (case map_of d k of None \<Rightarrow> dflt | Some v \<Rightarrow> v)"

text \<open>\<^verbatim>\<open>_is_py_script_or_integration\<close>. The chained \<^verbatim>\<open>.get('script', {}).get('type',
  'javascript')\<close> raises when the value under \<^verbatim>\<open>script\<close> is not a dictionary.\<close>

definition is_py_script_or_integration :: "env \<Rightarrow> string \<Rightarrow> error + bool" where
  "is_py_script_or_integration E file_path =
     (let file_yml = get_yaml E file_path in
      if re_match E INTEGRATION_REGEX file_path then
        (case dict_get file_yml ''script'' (YDict []) of
           YStr s \<Rightarrow> Inl AttributeError
         | YDict d \<Rightarrow>
             if dict_get d ''type'' (YStr ''javascript'') \<noteq> YStr ''python'' then Inr False
             else Inr True)
      else if re_match E SCRIPT_REGEX file_path then
        (if dict_get file_yml ''type'' (YStr ''javascript'') \<noteq> YStr ''python'' then Inr False
         else Inr True)
      else Inr False)"

text \<open>The cascade of lines 107 to 131, for the status and the path that lines 93 to 105
  have computed. The first condition evaluates \<^verbatim>\<open>_is_py_script_or_integration\<close> only
  when the two tests before it hold. The last two branches only print.\<close>

definition old_format_test :: "env \<Rightarrow> string \<Rightarrow> string \<Rightarrow> error + bool" where
  "old_format_test E file_status file_path =
     (if lower file_status \<in> set [''m'', ''a'', ''r'']
         \<and> checked_type E OLD_YML_FORMAT_FILE file_path
      then is_py_script_or_integration E file_path
      else Inr False)"

definition dispatch ::
  "env \<Rightarrow> bool \<Rightarrow> file_sets \<Rightarrow> string list \<Rightarrow> string \<Rightarrow> string \<Rightarrow> error + file_sets" where
  "dispatch E print_ignored S file_data file_status file_path =
     (case old_format_test E file_status file_path of
        Inl e \<Rightarrow> Inl e
      | Inr True \<Rightarrow> Inr (S\<lparr>old_format_files := set_add file_path (old_format_files S)\<rparr>)
      | Inr False \<Rightarrow>
          if lower file_status = ''m'' \<and> checked_type E CHECKED_TYPES_REGEXES file_path
             \<and> \<not> startswith file_path ''.''
          then Inr (S\<lparr>modified_files_list := set_add (Path file_path) (modified_files_list S)\<rparr>)
          else if lower file_status = ''a'' \<and> checked_type E CHECKED_TYPES_REGEXES file_path
             \<and> \<not> startswith file_path ''.''
          then Inr (S\<lparr>added_files_list := set_add file_path (added_files_list S)\<rparr>)
          else if lower file_status = ''d'' \<and> checked_type E CHECKED_TYPES_REGEXES file_path
             \<and> \<not> startswith file_path ''.''
          then Inr (S\<lparr>deleted_files := set_add file_path (deleted_files S)\<rparr>)
          else if startswith (lower file_status) ''r''
             \<and> checked_type E CHECKED_TYPES_REGEXES file_path
          then (case index file_data 2 of
                  Inl e \<Rightarrow> Inl e
                | Inr new_path \<Rightarrow>
                    if checked_type E CODE_FILES_REGEX new_path
                    then Inr (S\<lparr>modified_files_list :=
                                   set_add (Path file_path) (modified_files_list S)\<rparr>)
                    else (case index file_data 1 of
                            Inl e \<Rightarrow> Inl e
                          | Inr old_path \<Rightarrow>
                              Inr (S\<lparr>modified_files_list :=
                                   set_add (Renamed old_path new_path) (modified_files_list S)\<rparr>)))
          else if checked_type E SCHEMA_REGEX_LIST file_path
          then Inr (S\<lparr>modified_files_list := set_add (Path file_path) (modified_files_list S)\<rparr>)
          else if lower file_status \<notin> set (KNOWN_FILE_STATUSES E) then Inr S
          else if print_ignored \<and> \<not> checked_type E IGNORED_TYPES_REGEXES file_path then Inr S
          else Inr S)"

text \<open>Lines 100 to 105: a code file that is not deleted and is not a test stands for the
  yml file beside it; any other \<^verbatim>\<open>.js\<close> or \<^verbatim>\<open>.py\<close> file is skipped.\<close>

definition canonical ::
  "env \<Rightarrow> bool \<Rightarrow> file_sets \<Rightarrow> string list \<Rightarrow> string \<Rightarrow> string \<Rightarrow> error + file_sets" where
  "canonical E print_ignored S file_data file_status file_path =
     (if checked_type E CODE_FILES_REGEX file_path \<and> lower file_status \<noteq> ''d''
         \<and> \<not> endswith file_path ''_test.py''
      then dispatch E print_ignored S file_data file_status (splitext_root file_path @ ''.yml'')
      else if endswith file_path ''.js'' \<or> endswith file_path ''.py'' then Inr S
      else dispatch E print_ignored S file_data file_status file_path)"

text \<open>The body of the loop, lines 89 to 131, for one line \<open>f\<close> of the diff.\<close>

definition classify_line :: "env \<Rightarrow> bool \<Rightarrow> file_sets \<Rightarrow> string \<Rightarrow> error + file_sets" where
  "classify_line E print_ignored S f =
     (let file_data = split_ws f in
      if file_data = [] then Inr S
      else
        case index file_data 0 of
          Inl e \<Rightarrow> Inl e
        | Inr file_status \<Rightarrow>
           (case index file_data 1 of
              Inl e \<Rightarrow> Inl e
            | Inr file_path \<Rightarrow>
                if startswith (lower file_status) ''r''
                then (case index file_data 2 of
                        Inl e \<Rightarrow> Inl e
                      | Inr new_path \<Rightarrow> canonical E print_ignored S file_data ''r'' new_path)
                else canonical E print_ignored S file_data file_status file_path))"

fun classify_lines :: "env \<Rightarrow> bool \<Rightarrow> file_sets \<Rightarrow> string list \<Rightarrow> error + file_sets" where
  "classify_lines E print_ignored S [] = Inr S"
| "classify_lines E print_ignored S (f # fs) =
     (case classify_line E print_ignored S f of
        Inl e \<Rightarrow> Inl e
      | Inr S' \<Rightarrow> classify_lines E print_ignored S' fs)"

text \<open>\<^verbatim>\<open>get_modified_files(files_string, tag, print_ignored_files)\<close>: the loop over the lines,
  then \<^verbatim>\<open>filter_packagify_changes\<close> on three of the four sets.\<close>

definition get_modified_files ::
  "env \<Rightarrow> string \<Rightarrow> string \<Rightarrow> bool
     \<Rightarrow> error + (entry list \<times> string list \<times> string list \<times> string list)" where
  "get_modified_files E files_string tag print_ignored =
     (case classify_lines E print_ignored empty_sets (split_on (CHR 0x0A) files_string) of
        Inl e \<Rightarrow> Inl e
      | Inr S \<Rightarrow>
          (case filter_packagify_changes E (modified_files_list S) (added_files_list S)
                  (deleted_files S) tag of
             (modified, added, deleted) \<Rightarrow> Inr (modified, added, deleted, old_format_files S)))"

section \<open>Collecting the change set: \<^verbatim>\<open>get_modified_and_added_files\<close>\<close>

text \<open>\<^verbatim>\<open>run_command(cmd)\<close>, recorded in the trace.\<close>

definition run :: "env \<Rightarrow> validator \<Rightarrow> string \<Rightarrow> validator \<times> string" where
  "run E s cmd = (s\<lparr>trace := trace s @ [RunCommand cmd]\<rparr>, run_command E cmd)"

text \<open>The elements of a modified set that are plain strings: the only ones that can be
  equal to an element of a set of paths.\<close>

fun plain_paths :: "entry list \<Rightarrow> string list" where
  "plain_paths [] = []"
| "plain_paths (Path p # es) = p # plain_paths es"
| "plain_paths (Renamed old new # es) = plain_paths es"

text \<open>Lines 173 to 181. The arguments are the sets of the first call (tag against
  branch), of the working tree (\<open>non_committed_\<close>) and of the direct diff against the tag
  (\<open>_from_tag\<close>).\<close>

definition reconcile ::
  "entry list \<Rightarrow> string list \<Rightarrow> string list
   \<Rightarrow> entry list \<Rightarrow> string list \<Rightarrow> string list \<Rightarrow> string list
   \<Rightarrow> entry list \<Rightarrow> string list
   \<Rightarrow> entry list \<times> string list \<times> string list" where
  "reconcile modified_files added_files old_format
     non_committed_modified_files non_committed_added_files non_committed_deleted_files
     non_committed_old_format_files modified_files_from_tag added_files_from_tag =
     (let old_format = set_union old_format non_committed_old_format_files;
          modified_files = set_union modified_files
             (set_intersection modified_files_from_tag non_committed_modified_files);
          added_files = set_union added_files
             (set_intersection added_files_from_tag non_committed_added_files);
          modified_files = set_minus modified_files (map Path non_committed_deleted_files);
          added_files = set_minus
             (set_minus added_files (plain_paths non_committed_modified_files))
             non_committed_deleted_files
      in (modified_files, added_files, old_format))"

definition get_modified_and_added_files ::
  "env \<Rightarrow> validator \<Rightarrow> string
     \<Rightarrow> error + (validator \<times> entry list \<times> string list \<times> string list)" where
  "get_modified_and_added_files E s tag =
     (let compare_type = (if contains tag ''master'' then ''.'' else '''');
          (s1, all_changed_files_string) =
             run E s (''git diff --name-status '' @ tag @ ''..'' @ compare_type
                        @ ''refs/heads/'' @ branch_name s)
      in case get_modified_files E all_changed_files_string tag (print_ignored_files s) of
           Inl e \<Rightarrow> Inl e
         | Inr (modified_files, added_files, _, old_format) \<Rightarrow>
             if \<not> is_circle s then
               (let (s2, files_string) = run E s1 ''git diff --name-status --no-merges HEAD''
                in case get_modified_files E files_string ''master'' (print_ignored_files s) of
                     Inl e \<Rightarrow> Inl e
                   | Inr (nc_modified, nc_added, nc_deleted, nc_old_format) \<Rightarrow>
                       (let (s3, all_changed_files_string) =
                              run E s2 (''git diff --name-status '' @ tag)
                        in case get_modified_files E all_changed_files_string ''master''
                                  (print_ignored_files s) of
                             Inl e \<Rightarrow> Inl e
                           | Inr (modified_from_tag, added_from_tag, _, _) \<Rightarrow>
                               (case reconcile modified_files added_files old_format
                                       nc_modified nc_added nc_deleted nc_old_format
                                       modified_from_tag added_from_tag of
                                  (m, a, old) \<Rightarrow> Inr (s3, m, a, old))))
             else Inr (s1, modified_files, added_files, old_format))"

section \<open>Validating files\<close>

text \<open>\<^verbatim>\<open>self._is_valid = False\<close>.\<close>

definition set_invalid :: "validator \<Rightarrow> validator" where
  "set_invalid s = s\<lparr>is_valid := False, trace := trace s @ [SetValid False]\<rparr>"

text \<open>A call of a validator method, recorded in the trace.\<close>

definition call :: "env \<Rightarrow> check_call \<Rightarrow> validator \<Rightarrow> validator \<times> bool" where
  "call E c s = (s\<lparr>trace := trace s @ [Call c]\<rparr>, check E c)"

text \<open>\<^verbatim>\<open>if not v.method(): self._is_valid = False\<close>.\<close>

definition require :: "env \<Rightarrow> check_call \<Rightarrow> validator \<Rightarrow> validator" where
  "require E c s = (case call E c s of (s', ok) \<Rightarrow> if \<not> ok then set_invalid s' else s')"

text \<open>\<^verbatim>\<open>if flag and not v.method(): self._is_valid = False\<close>: the method is called only
  when the flag holds.\<close>

definition require_if :: "bool \<Rightarrow> env \<Rightarrow> check_call \<Rightarrow> validator \<Rightarrow> validator" where
  "require_if flag E c s = (if flag then require E c s else s)"

text \<open>\<^verbatim>\<open>if v.method(): self._is_valid = False\<close>.\<close>

definition forbid :: "env \<Rightarrow> check_call \<Rightarrow> validator \<Rightarrow> validator" where
  "forbid E c s = (case call E c s of (s', found) \<Rightarrow> if found then set_invalid s' else s')"

text \<open>The body of the loop of \<^verbatim>\<open>validate_modified_files\<close>, lines 194 to 272.\<close>

definition validate_modified_file :: "env \<Rightarrow> validator \<Rightarrow> entry \<Rightarrow> validator" where
  "validate_modified_file E s e =
     (let old_file_path = entry_old_path e; file_path = entry_path e in
      if \<not> checked_type E CHECKED_TYPES_REGEXES file_path then s
      else
        let s = require E (Structure_is_file_valid file_path (use_git s)
                    (branch_name s \<noteq> [] \<and> \<not> (False \<or> is_backward_check s))
                    (Some (branch_name s \<noteq> [] \<and> old_file_path \<noteq> None))) s
        in
        if validate_id_set s then require E (IDSet_is_file_valid_in_set file_path) s
        else if re_match E INTEGRATION_REGEX file_path
             \<or> re_match E INTEGRATION_YML_REGEX file_path then
          (let s = require E (Image_is_valid file_path) s;
               s = require E (Description_is_valid file_path) s;
               s = require_if (is_backward_check s) E
                     (Integration_is_backward_compatible file_path old_file_path
                        (Some (prev_ver s))) s
           in require E (Integration_is_valid_integration file_path old_file_path
                           (Some (prev_ver s))) s)
        else if re_match E BETA_INTEGRATION_REGEX file_path
             \<or> re_match E BETA_INTEGRATION_YML_REGEX file_path then
          (let s = require E (Description_is_valid_beta_description file_path) s
           in require E (Integration_is_valid_beta_integration file_path old_file_path False) s)
        else if re_match E SCRIPT_REGEX file_path then
          (let s = require_if (is_backward_check s) E
                     (Script_is_backward_compatible file_path old_file_path (prev_ver s)) s
           in require E (Script_is_valid_script file_path old_file_path (prev_ver s)) s)
        else if re_match E SCRIPT_YML_REGEX file_path \<or> re_match E SCRIPT_PY_REGEX file_path
             \<or> re_match E SCRIPT_JS_REGEX file_path then
          (let yml_path = get_script_package_data E (dirname file_path)
           in require_if (is_backward_check s) E
                (Script_is_backward_compatible yml_path old_file_path (prev_ver s)) s)
        else if re_match E IMAGE_REGEX file_path then require E (Image_is_valid file_path) s
        else if re_match E INCIDENT_FIELD_REGEX file_path then
          (let s = require E (IncidentField_is_valid file_path old_file_path
                                (Some (prev_ver s))) s
           in require_if (is_backward_check s) E
                (IncidentField_is_backward_compatible file_path old_file_path
                   (Some (prev_ver s))) s)
        else s)"

fun validate_modified_files :: "env \<Rightarrow> validator \<Rightarrow> entry list \<Rightarrow> validator" where
  "validate_modified_files E s [] = s"
| "validate_modified_files E s (e # es) =
     validate_modified_files E (validate_modified_file E s e) es"

text \<open>The body of the loop of \<^verbatim>\<open>validate_added_files\<close>, lines 283 to 334. The test
  playbook branch reads \<^verbatim>\<open>self.conf_json_validator\<close>, which exists only when
  \<^verbatim>\<open>validate_conf_json\<close> was set.\<close>

definition validate_added_file :: "env \<Rightarrow> validator \<Rightarrow> string \<Rightarrow> error + validator" where
  "validate_added_file E s file_path =
     (let s = require E (Structure_is_file_valid file_path (use_git s) True None) s;
          s = (if validate_id_set s
               then forbid E (IDSet_is_file_has_used_id file_path)
                      (require E (IDSet_is_file_valid_in_set file_path) s)
               else s)
      in
      if re_match E TEST_PLAYBOOK_REGEX file_path then
        (if validate_conf_json s
         then Inr (require E (ConfJson_is_test_in_conf_json (collect_ids E file_path)) s)
         else Inl AttributeError)
      else if re_match E INTEGRATION_REGEX file_path
           \<or> re_match E INTEGRATION_YML_REGEX file_path
           \<or> re_match E IMAGE_REGEX file_path then
        (let s = require E (Image_is_valid file_path) s;
             s = require E (Description_is_valid file_path) s
         in Inr (require E (Integration_is_valid_integration file_path None None) s))
      else if re_match E BETA_INTEGRATION_REGEX file_path
           \<or> re_match E BETA_INTEGRATION_YML_REGEX file_path then
        (let s = require E (Description_is_valid_beta_description file_path) s
         in Inr (require E (Integration_is_valid_beta_integration file_path None True) s))
      else if re_match E IMAGE_REGEX file_path then Inr (require E (Image_is_valid file_path) s)
      else if re_match E INCIDENT_FIELD_REGEX file_path then
        Inr (require E (IncidentField_is_valid file_path None None) s)
      else Inr s)"

fun validate_added_files :: "env \<Rightarrow> validator \<Rightarrow> string list \<Rightarrow> error + validator" where
  "validate_added_files E s [] = Inr s"
| "validate_added_files E s (f # fs) =
     (case validate_added_file E s f of
        Inl e \<Rightarrow> Inl e
      | Inr s' \<Rightarrow> validate_added_files E s' fs)"

text \<open>\<^verbatim>\<open>validate_no_old_format\<close>: the loop of lines 343 to 346 collects the files whose
  document has no \<^verbatim>\<open>toversion\<close> key, and lines 347 to 351 fail once if there is any.\<close>

fun collect_invalid_files :: "env \<Rightarrow> string list \<Rightarrow> string list \<Rightarrow> string list" where
  "collect_invalid_files E invalid_files [] = invalid_files"
| "collect_invalid_files E invalid_files (f # fs) =
     (let yaml_data = get_yaml E f in
      if ''toversion'' \<notin> fst ` set yaml_data
      then collect_invalid_files E (invalid_files @ [f]) fs
      else collect_invalid_files E invalid_files fs)"

definition validate_no_old_format :: "env \<Rightarrow> validator \<Rightarrow> string list \<Rightarrow> validator" where
  "validate_no_old_format E s old_format =
     (let invalid_files = collect_invalid_files E [] old_format in
      if invalid_files \<noteq> [] then set_invalid s else s)"

text \<open>\<^verbatim>\<open>validate_all_files\<close>, lines 374 to 400: for every checked expression, walk the
  directory named before its first \<^verbatim>\<open>.*\<close>.\<close>

fun before_dotstar :: "string \<Rightarrow> string" where
  "before_dotstar [] = []"
| "before_dotstar (c # cs) = (if startswith (c # cs) ''.*'' then [] else c # before_dotstar cs)"

fun validate_files_of_root :: "env \<Rightarrow> string \<Rightarrow> validator \<Rightarrow> string list \<Rightarrow> validator" where
  "validate_files_of_root E root s [] = s"
| "validate_files_of_root E root s (file_name # files) =
     (let file_path = path_join root file_name in
      if startswith file_name ''.'' then validate_files_of_root E root s files
      else validate_files_of_root E root
             (require E (Structure_is_valid_scheme file_path (use_git s)) s) files)"

fun validate_inner_dirs :: "env \<Rightarrow> string \<Rightarrow> validator \<Rightarrow> string list \<Rightarrow> error + validator" where
  "validate_inner_dirs E root s [] = Inr s"
| "validate_inner_dirs E root s (inner_dir # dirs) =
     (case index (glob E (path_join (path_join root inner_dir) ''*.yml'')) 0 of
        Inl e \<Rightarrow> Inl e
      | Inr file_path \<Rightarrow>
          validate_inner_dirs E root
            (require E (Structure_is_valid_scheme file_path (use_git s)) s) dirs)"

fun validate_walk ::
  "env \<Rightarrow> validator \<Rightarrow> (string \<times> string list \<times> string list) list \<Rightarrow> error + validator" where
  "validate_walk E s [] = Inr s"
| "validate_walk E s ((root, dirs, files) # rest) =
     (if root \<notin> set (DIR_LIST E) then validate_walk E s rest
      else
        let s = validate_files_of_root E root s files in
        if root \<in> set (PACKAGE_SUPPORTING_DIRECTORIES E) then
          (case validate_inner_dirs E root s dirs of
             Inl e \<Rightarrow> Inl e
           | Inr s' \<Rightarrow> validate_walk E s' rest)
        else validate_walk E s rest)"

fun validate_regexes :: "env \<Rightarrow> validator \<Rightarrow> string list \<Rightarrow> error + validator" where
  "validate_regexes E s [] = Inr s"
| "validate_regexes E s (regex # regexes) =
     (let directory = before_dotstar regex in
      case validate_walk E s (os_walk E directory) of
        Inl e \<Rightarrow> Inl e
      | Inr s' \<Rightarrow> validate_regexes E s' regexes)"

definition validate_all_files :: "env \<Rightarrow> validator \<Rightarrow> error + validator" where
  "validate_all_files E s = validate_regexes E s (CHECKED_TYPES_REGEXES_src E)"

text \<open>\<^verbatim>\<open>validate_committed_files\<close>, lines 357 to 370. The loop of lines 359 to 363 raises
  the flag \<^verbatim>\<open>schema_changed\<close>.\<close>

fun schema_changed_loop :: "env \<Rightarrow> bool \<Rightarrow> entry list \<Rightarrow> bool" where
  "schema_changed_loop E schema_changed [] = schema_changed"
| "schema_changed_loop E schema_changed (f # fs) =
     (if checked_type E SCHEMA_REGEX_LIST (entry_path f)
      then schema_changed_loop E True fs
      else schema_changed_loop E schema_changed fs)"

definition validate_committed_files :: "env \<Rightarrow> validator \<Rightarrow> error + validator" where
  "validate_committed_files E s =
     (case get_modified_and_added_files E s ''origin/master'' of
        Inl e \<Rightarrow> Inl e
      | Inr (s, modified_files, added_files, old_format) \<Rightarrow>
          if schema_changed_loop E False modified_files then validate_all_files E s
          else
            (case validate_added_files E (validate_modified_files E s modified_files)
                    added_files of
               Inl e \<Rightarrow> Inl e
             | Inr s \<Rightarrow> Inr (validate_no_old_format E s old_format)))"

text \<open>\<^verbatim>\<open>validate_against_previous_version(no_error)\<close>, lines 432 to 438.\<close>

definition validate_against_previous_version ::
  "env \<Rightarrow> bool \<Rightarrow> validator \<Rightarrow> error + validator" where
  "validate_against_previous_version E no_error s =
     (if prev_ver s \<noteq> [] \<and> prev_ver s \<noteq> ''master'' then
        (case get_modified_and_added_files E s (prev_ver s) of
           Inl e \<Rightarrow> Inl e
         | Inr (s, modified_files, _, _) \<Rightarrow>
             (let prev_self_valid = is_valid s;
                  s = validate_modified_files E s modified_files
              in if no_error
                 then Inr (s\<lparr>is_valid := prev_self_valid,
                             trace := trace s @ [SetValid prev_self_valid]\<rparr>)
                 else Inr s))
      else Inr s)"

text \<open>\<^verbatim>\<open>is_valid_structure\<close>, lines 408 to 424: the final state and the returned verdict.\<close>

definition is_valid_structure :: "env \<Rightarrow> validator \<Rightarrow> error + (validator \<times> bool)" where
  "is_valid_structure E s =
     (let s = (if validate_conf_json s then require E ConfJson_is_valid_conf_json s else s);
          r = (if branch_name s \<noteq> [] then
                 (if branch_name s \<noteq> ''master''
                     \<and> (\<not> startswith (branch_name s) ''19.''
                          \<and> \<not> startswith (branch_name s) ''20.'')
                  then (case validate_committed_files E s of
                          Inl e \<Rightarrow> Inl e
                        | Inr s \<Rightarrow> validate_against_previous_version E True s)
                  else (case validate_against_previous_version E True s of
                          Inl e \<Rightarrow> Inl e
                        | Inr s \<Rightarrow> validate_all_files E s))
               else validate_all_files E s)
      in case r of Inl e \<Rightarrow> Inl e | Inr s \<Rightarrow> Inr (s, is_valid s))"

text \<open>The constructor, lines 46 to 69. \<^verbatim>\<open>re.search(r'\* (.*)', branches).group(1)\<close> is
  the rest of the line after the first \<^verbatim>\<open>"* "\<close>; without a match \<^verbatim>\<open>.group\<close> raises.\<close>

fun branch_search :: "string \<Rightarrow> string option" where
  "branch_search [] = None"
| "branch_search (c # cs) =
     (if startswith (c # cs) ''* '' then Some (takeWhile (\<lambda>x. x \<noteq> CHR 0x0A) (drop 1 cs))
      else branch_search cs)"

definition init ::
  "env \<Rightarrow> bool \<Rightarrow> string option \<Rightarrow> bool \<Rightarrow> bool \<Rightarrow> bool \<Rightarrow> bool \<Rightarrow> bool \<Rightarrow> error + validator" where
  "init E is_backward_check_arg prev_ver_arg use_git_arg is_circle_arg print_ignored_arg
        validate_conf_json_arg validate_id_set_arg =
     (let branch =
            (if use_git_arg
             then (case branch_search (run_command E ''git branch'') of
                     None \<Rightarrow> Inl AttributeError
                   | Some b \<Rightarrow> Inr (b, [RunCommand ''git branch'']))
             else Inr ('''', []))
      in case branch of
           Inl e \<Rightarrow> Inl e
         | Inr (b, tr) \<Rightarrow>
             Inr \<lparr>branch_name = b, use_git = use_git_arg,
                  prev_ver = (case prev_ver_arg of
                                None \<Rightarrow> ''origin/master''
                              | Some v \<Rightarrow> if v = [] then ''origin/master'' else v),
                  is_valid = True, is_backward_check = is_backward_check_arg,
                  is_circle = is_circle_arg, print_ignored_files = print_ignored_arg,
                  validate_conf_json = validate_conf_json_arg,
                  validate_id_set = validate_id_set_arg, trace = tr\<rparr>)"

text \<open>\<^verbatim>\<open>FilesValidator()\<close> with every argument at its default.\<close>

definition default_validator :: "env \<Rightarrow> error + validator" where
  "default_validator E = init E True (Some ''origin/master'') True False False True False"

section \<open>A concrete environment\<close>

text \<open>
  A small instance of the parameters, used to run the model on concrete diffs. The
  patterns are prefix and suffix tests in the shape of the content repository's layout:
  code files are \<^verbatim>\<open>.py\<close>/\<^verbatim>\<open>.js\<close> files under \<^verbatim>\<open>Integrations/\<close> or \<^verbatim>\<open>Scripts/\<close>; the old
  unified format is \<^verbatim>\<open>Integrations...integration-...yml\<close> and \<^verbatim>\<open>Scripts...script-...yml\<close>;
  checked types are yml files of the content directories and png images; schemas live
  under \<^verbatim>\<open>Tests/schemas/\<close>. \<^verbatim>\<open>filter_packagify_changes\<close> finds no packagify pair and
  returns its three sets as they are. The structure check rejects one file,
  \<^verbatim>\<open>Integrations/Bad/Bad.yml\<close>; every other check passes. The file system walk is
  empty. The output of git is the argument \<open>git\<close>.
\<close>

definition TAB :: string where
  "TAB = [CHR 0x09]"

definition NL :: string where
  "NL = [CHR 0x0A]"

definition example_checked_type :: "regex_list \<Rightarrow> string \<Rightarrow> bool" where
  "example_checked_type rl p =
     (case rl of
        CODE_FILES_REGEX \<Rightarrow>
          (startswith p ''Integrations/'' \<or> startswith p ''Scripts/'')
          \<and> (endswith p ''.py'' \<or> endswith p ''.js'')
      | OLD_YML_FORMAT_FILE \<Rightarrow>
          (startswith p ''Integrations'' \<and> contains p ''integration-'' \<and> endswith p ''.yml'')
          \<or> (startswith p ''Scripts'' \<and> contains p ''script-'' \<and> endswith p ''.yml'')
      | CHECKED_TYPES_REGEXES \<Rightarrow>
          endswith p ''.png''
          \<or> ((startswith p ''Integrations/'' \<or> startswith p ''Scripts/''
                \<or> startswith p ''Playbooks/'') \<and> endswith p ''.yml'')
      | SCHEMA_REGEX_LIST \<Rightarrow> startswith p ''Tests/schemas/'' \<and> endswith p ''.yml''
      | IGNORED_TYPES_REGEXES \<Rightarrow> endswith p ''.md'')"

definition example_re_match :: "regex \<Rightarrow> string \<Rightarrow> bool" where
  "example_re_match r p =
     (case r of
        INTEGRATION_REGEX \<Rightarrow>
          startswith p ''Integrations'' \<and> contains p ''integration-'' \<and> endswith p ''.yml''
      | INTEGRATION_YML_REGEX \<Rightarrow> startswith p ''Integrations/'' \<and> endswith p ''.yml''
      | SCRIPT_REGEX \<Rightarrow>
          startswith p ''Scripts'' \<and> contains p ''script-'' \<and> endswith p ''.yml''
      | SCRIPT_YML_REGEX \<Rightarrow> startswith p ''Scripts/'' \<and> endswith p ''.yml''
      | SCRIPT_PY_REGEX \<Rightarrow> startswith p ''Scripts/'' \<and> endswith p ''.py''
      | SCRIPT_JS_REGEX \<Rightarrow> startswith p ''Scripts/'' \<and> endswith p ''.js''
      | IMAGE_REGEX \<Rightarrow> endswith p ''.png''
      | TEST_PLAYBOOK_REGEX \<Rightarrow> startswith p ''TestPlaybooks/'' \<and> endswith p ''.yml''
      | _ \<Rightarrow> False)"

definition example_get_yaml :: "string \<Rightarrow> (string \<times> yaml) list" where
  "example_get_yaml p =
     (if p = ''Scripts/script-Foo/script-Foo.yml'' then [(''type'', YStr ''python'')]
      else if p = ''Scripts/script-Old.yml''
        then [(''type'', YStr ''python''), (''toversion'', YStr ''4.1.0'')]
      else if p = ''Scripts/script-New.yml'' then [(''type'', YStr ''python'')]
      else [])"

definition example_check :: "check_call \<Rightarrow> bool" where
  "example_check c =
     (case c of
        Structure_is_file_valid p g a r \<Rightarrow> p \<noteq> ''Integrations/Bad/Bad.yml''
      | _ \<Rightarrow> True)"

definition example_env :: "(string \<Rightarrow> string) \<Rightarrow> env" where
  "example_env git =
     \<lparr>checked_type = example_checked_type, re_match = example_re_match,
      get_yaml = example_get_yaml, KNOWN_FILE_STATUSES = [''a'', ''m'', ''d'', ''r100''],
      CHECKED_TYPES_REGEXES_src = [''Integrations.*integration-.*.yml$''],
      DIR_LIST = [''Integrations'', ''Scripts'', ''Playbooks''],
      PACKAGE_SUPPORTING_DIRECTORIES = [''Integrations'', ''Scripts''],
      filter_packagify_changes = (\<lambda>modified added deleted tag. (modified, added, deleted)),
      run_command = git, check = example_check,
      get_script_package_data = (\<lambda>d. d @ ''/script.yml''), collect_ids = (\<lambda>p. p),
      os_walk = (\<lambda>d. []), glob = (\<lambda>pattern. [])\<rparr>"

text \<open>A validator as the constructor builds it on the branch \<open>b\<close> with the default
  arguments, except for the id-set flag \<open>ids\<close>.\<close>

definition example_validator :: "string \<Rightarrow> bool \<Rightarrow> validator" where
  "example_validator b ids =
     \<lparr>branch_name = b, use_git = True, prev_ver = ''origin/master'', is_valid = True,
      is_backward_check = True, is_circle = False, print_ignored_files = False,
      validate_conf_json = True, validate_id_set = ids, trace = []\<rparr>"

text \<open>The output of git on a feature branch: one integration modified and one playbook
  added on the branch, one script modified on the branch and deleted in the working tree,
  the added playbook and the code of another integration modified in the working tree.\<close>

definition example_git :: "string \<Rightarrow> string" where
  "example_git c =
     (if c = ''git diff --name-status origin/master...refs/heads/feature''
      then ''M'' @ TAB @ ''Integrations/Foo/Foo.yml'' @ NL
         @ ''A'' @ TAB @ ''Playbooks/playbook-New.yml'' @ NL
         @ ''M'' @ TAB @ ''Scripts/Gone/Gone.yml'' @ NL
      else if c = ''git diff --name-status --no-merges HEAD''
      then ''D'' @ TAB @ ''Scripts/Gone/Gone.yml'' @ NL
         @ ''M'' @ TAB @ ''Playbooks/playbook-New.yml'' @ NL
         @ ''M'' @ TAB @ ''Integrations/Bar/Bar.py'' @ NL
      else if c = ''git diff --name-status origin/master''
      then ''M'' @ TAB @ ''Integrations/Foo/Foo.yml'' @ NL
         @ ''A'' @ TAB @ ''Playbooks/playbook-New.yml'' @ NL
         @ ''M'' @ TAB @ ''Integrations/Bar/Bar.py'' @ NL
      else if c = ''git branch'' then ''  master'' @ NL @ ''* feature'' @ NL
      else [])"

text \<open>The output of git on the branch \<^verbatim>\<open>master\<close> with one uncommitted change, to
  the integration that the structure check rejects.\<close>

definition example_git_master :: "string \<Rightarrow> string" where
  "example_git_master c =
     (if c = ''git diff --name-status origin/master...refs/heads/master'' then []
      else if c = ''git diff --name-status --no-merges HEAD''
      then ''M'' @ TAB @ ''Integrations/Bad/Bad.yml'' @ NL
      else if c = ''git diff --name-status origin/master''
      then ''M'' @ TAB @ ''Integrations/Bad/Bad.yml'' @ NL
      else if c = ''git branch'' then ''* master'' @ NL
      else [])"

text \<open>The output of git on a feature branch that changes a schema and the rejected
  integration.\<close>

definition example_git_schema :: "string \<Rightarrow> string" where
  "example_git_schema c =
     (if c = ''git diff --name-status origin/master...refs/heads/feature''
      then ''M'' @ TAB @ ''Tests/schemas/integration.yml'' @ NL
         @ ''M'' @ TAB @ ''Integrations/Bad/Bad.yml'' @ NL
      else if c = ''git branch'' then ''* feature'' @ NL
      else [])"

section \<open>Notions used to state the properties\<close>

text \<open>\<open>grows P s s'\<close>: the state \<open>s'\<close> is \<open>s\<close> with the verdict possibly lowered and
  with more events, all satisfying \<open>P\<close>, at the end of the trace; every other attribute
  is as in \<open>s\<close>.\<close>

definition grows :: "(event \<Rightarrow> bool) \<Rightarrow> validator \<Rightarrow> validator \<Rightarrow> bool" where
  "grows P s s' \<longleftrightarrow>
     (\<exists>ok evs. s' = s\<lparr>is_valid := is_valid s \<and> ok, trace := trace s @ evs\<rparr>
        \<and> (\<forall>ev \<in> set evs. P ev))"

text \<open>The events of a validation pass: calls of validator methods, and assignments of
  \<^verbatim>\<open>False\<close> to the verdict.\<close>

fun validation_event :: "event \<Rightarrow> bool" where
  "validation_event (Call c) = True"
| "validation_event (SetValid b) = (\<not> b)"
| "validation_event (RunCommand c) = False"

text \<open>A file fails the validation of modified files when validating it, starting from
  a true verdict, leaves the verdict false.\<close>

definition fails_modified_validation :: "env \<Rightarrow> validator \<Rightarrow> entry \<Rightarrow> bool" where
  "fails_modified_validation E s e =
     (\<not> is_valid (validate_modified_file E (s\<lparr>is_valid := True\<rparr>) e))"

text \<open>The events of the structure check and of the id-set membership check.\<close>

fun structure_or_id_set_event :: "event \<Rightarrow> bool" where
  "structure_or_id_set_event (Call (Structure_is_file_valid p g a r)) = True"
| "structure_or_id_set_event (Call (IDSet_is_file_valid_in_set p)) = True"
| "structure_or_id_set_event (Call c) = False"
| "structure_or_id_set_event (SetValid b) = (\<not> b)"
| "structure_or_id_set_event (RunCommand c) = False"

text \<open>The structure check that lines 203 to 209 make for an element of the modified
  set.\<close>

definition structure_call :: "validator \<Rightarrow> entry \<Rightarrow> check_call" where
  "structure_call s e =
     Structure_is_file_valid (entry_path e) (use_git s)
       (branch_name s \<noteq> [] \<and> \<not> (False \<or> is_backward_check s))
       (Some (branch_name s \<noteq> [] \<and> entry_old_path e \<noteq> None))"

text \<open>The values assigned to the verdict, in order.\<close>

fun verdict_writes :: "event list \<Rightarrow> bool list" where
  "verdict_writes [] = []"
| "verdict_writes (SetValid b # evs) = b # verdict_writes evs"
| "verdict_writes (Call c # evs) = verdict_writes evs"
| "verdict_writes (RunCommand c # evs) = verdict_writes evs"

text \<open>Where the loop body puts a line: into one of the four sets, or nowhere.\<close>

datatype placement =
  Nowhere | InModified entry | InAdded string | InDeleted string | InOldFormat string

fun place :: "placement \<Rightarrow> file_sets \<Rightarrow> file_sets" where
  "place Nowhere S = S"
| "place (InModified x) S = S\<lparr>modified_files_list := set_add x (modified_files_list S)\<rparr>"
| "place (InAdded p) S = S\<lparr>added_files_list := set_add p (added_files_list S)\<rparr>"
| "place (InDeleted p) S = S\<lparr>deleted_files := set_add p (deleted_files S)\<rparr>"
| "place (InOldFormat p) S = S\<lparr>old_format_files := set_add p (old_format_files S)\<rparr>"

definition placed :: "(error + placement) \<Rightarrow> file_sets \<Rightarrow> error + file_sets" where
  "placed r S = (case r of Inl e \<Rightarrow> Inl e | Inr pl \<Rightarrow> Inr (place pl S))"





section \<open>Sets as lists\<close>


lemma set_set_union: "set (set_union xs ys) = set xs \<union> set ys"
  by (auto simp: set_union_def)

lemma set_set_intersection: "set (set_intersection xs ys) = set xs \<inter> set ys"
  by (auto simp: set_intersection_def)

lemma set_set_minus: "set (set_minus xs ys) = set xs - set ys"
  by (auto simp: set_minus_def)

lemma set_plain_paths: "set (plain_paths es) = {p. Path p \<in> set es}"
  by (induction es rule: plain_paths.induct) auto

lemma reconcile_sets:
  "reconcile mA aA oA mW aW dW oW mT aT = (m, a, old) \<Longrightarrow>
     set old = set oA \<union> set oW
     \<and> set m = (set mA \<union> (set mT \<inter> set mW)) - Path ` set dW
     \<and> set a = (set aA \<union> (set aT \<inter> set aW)) - {p. Path p \<in> set mW} - set dW"
  by (auto simp: reconcile_def Let_def set_set_union set_set_intersection set_set_minus
        set_plain_paths)

section \<open>The reconciled change set\<close>

text \<open>
  Claim C1. Outside CI (\<open>is_circle\<close> false), when the three classifications succeed,
  \<^verbatim>\<open>get_modified_and_added_files\<close> returns exactly the reconciled sets: old format is
  the union of the tag-against-branch and working-tree old-format sets; modified is the
  tag-against-branch modified set joined with the paths modified both in the direct diff
  against the tag and in the working tree, without the paths deleted in the working tree;
  added is built the same way, without the working-tree modified paths and without the
  working-tree deleted paths. In particular a path deleted in the working tree and
  modified on the branch is not in the final modified set.
\<close>

theorem get_modified_and_added_files_reconciled:
  assumes local: "\<not> is_circle s"
    and A: "get_modified_files E
              (run_command E (''git diff --name-status '' @ tag @ ''..''
                 @ (if contains tag ''master'' then ''.'' else '''')
                 @ ''refs/heads/'' @ branch_name s))
              tag (print_ignored_files s) = Inr (mA, aA, dA, oA)"
    and W: "get_modified_files E (run_command E ''git diff --name-status --no-merges HEAD'')
              ''master'' (print_ignored_files s) = Inr (mW, aW, dW, oW)"
    and T: "get_modified_files E (run_command E (''git diff --name-status '' @ tag))
              ''master'' (print_ignored_files s) = Inr (mT, aT, dT, oT)"
  shows "\<exists>s' m a old.
           get_modified_and_added_files E s tag = Inr (s', m, a, old)
           \<and> set old = set oA \<union> set oW
           \<and> set m = (set mA \<union> (set mT \<inter> set mW)) - Path ` set dW
           \<and> set a = (set aA \<union> (set aT \<inter> set aW)) - {p. Path p \<in> set mW} - set dW
           \<and> (\<forall>p. p \<in> set dW \<and> Path p \<in> set mA \<longrightarrow> Path p \<notin> set m)"
proof -
  obtain m a old where R: "reconcile mA aA oA mW aW dW oW mT aT = (m, a, old)"
    by (cases "reconcile mA aA oA mW aW dW oW mT aT") auto
  have G: "get_modified_and_added_files E s tag =
        Inr (s\<lparr>trace := trace s @
               [RunCommand (''git diff --name-status '' @ tag @ ''..''
                 @ (if contains tag ''master'' then ''.'' else '''')
                 @ ''refs/heads/'' @ branch_name s),
                RunCommand ''git diff --name-status --no-merges HEAD'',
                RunCommand (''git diff --name-status '' @ tag)]\<rparr>, m, a, old)"
    using local A W T R
    by (simp add: get_modified_and_added_files_def run_def Let_def)
  from reconcile_sets[OF R] G show ?thesis by auto
qed

theorem get_modified_and_added_files_reconciled_witness:
  "\<exists>s' m a old.
     get_modified_and_added_files (example_env example_git) (example_validator ''feature'' False)
       ''origin/master'' = Inr (s', m, a, old)
     \<and> set m = {Path ''Integrations/Foo/Foo.yml'', Path ''Integrations/Bar/Bar.yml''}
     \<and> set a = {} \<and> set old = {}
     \<and> Path ''Scripts/Gone/Gone.yml'' \<notin> set m"
proof -
  let ?E = "example_env example_git" and ?s = "example_validator ''feature'' False"
  have l: "\<not> is_circle ?s"
    by (simp add: example_validator_def)
  have A: "get_modified_files ?E
             (run_command ?E (''git diff --name-status '' @ ''origin/master'' @ ''..''
                @ (if contains ''origin/master'' ''master'' then ''.'' else '''')
                @ ''refs/heads/'' @ branch_name ?s))
             ''origin/master'' (print_ignored_files ?s)
           = Inr ([Path ''Integrations/Foo/Foo.yml'', Path ''Scripts/Gone/Gone.yml''],
                  [''Playbooks/playbook-New.yml''], [], [])"
    by code_simp
  have W: "get_modified_files ?E (run_command ?E ''git diff --name-status --no-merges HEAD'')
             ''master'' (print_ignored_files ?s)
           = Inr ([Path ''Playbooks/playbook-New.yml'', Path ''Integrations/Bar/Bar.yml''],
                  [], [''Scripts/Gone/Gone.yml''], [])"
    by code_simp
  have T: "get_modified_files ?E
             (run_command ?E (''git diff --name-status '' @ ''origin/master''))
             ''master'' (print_ignored_files ?s)
           = Inr ([Path ''Integrations/Foo/Foo.yml'', Path ''Integrations/Bar/Bar.yml''],
                  [''Playbooks/playbook-New.yml''], [], [])"
    by code_simp
  from get_modified_and_added_files_reconciled[OF l A W T]
  obtain s' m a old where
    g: "get_modified_and_added_files ?E ?s ''origin/master'' = Inr (s', m, a, old)"
    and m: "set m = (set [Path ''Integrations/Foo/Foo.yml'', Path ''Scripts/Gone/Gone.yml'']
              \<union> (set [Path ''Integrations/Foo/Foo.yml'', Path ''Integrations/Bar/Bar.yml'']
                 \<inter> set [Path ''Playbooks/playbook-New.yml'', Path ''Integrations/Bar/Bar.yml'']))
              - Path ` set [''Scripts/Gone/Gone.yml'']"
    and a: "set a = (set [''Playbooks/playbook-New.yml'']
              \<union> (set [''Playbooks/playbook-New.yml''] \<inter> set []))
              - {p. Path p \<in> set [Path ''Playbooks/playbook-New.yml'',
                                     Path ''Integrations/Bar/Bar.yml'']}
              - set [''Scripts/Gone/Gone.yml'']"
    and old: "set old = set [] \<union> set []"
    by blast
  have m': "set m = {Path ''Integrations/Foo/Foo.yml'', Path ''Integrations/Bar/Bar.yml''}"
    unfolding m by auto
  have a': "set a = {}"
    unfolding a by auto
  from g m' a' old show ?thesis by auto
qed

section \<open>How a validation step changes the state\<close>

lemma require_fields [simp]:
  "is_valid (require E c s) = (is_valid s \<and> check E c)"
  "branch_name (require E c s) = branch_name s"
  "use_git (require E c s) = use_git s"
  "prev_ver (require E c s) = prev_ver s"
  "is_backward_check (require E c s) = is_backward_check s"
  "is_circle (require E c s) = is_circle s"
  "print_ignored_files (require E c s) = print_ignored_files s"
  "validate_conf_json (require E c s) = validate_conf_json s"
  "validate_id_set (require E c s) = validate_id_set s"
  by (simp_all add: require_def call_def set_invalid_def)

lemma require_if_fields [simp]:
  "is_valid (require_if b E c s) = (is_valid s \<and> (b \<longrightarrow> check E c))"
  "branch_name (require_if b E c s) = branch_name s"
  "use_git (require_if b E c s) = use_git s"
  "prev_ver (require_if b E c s) = prev_ver s"
  "is_backward_check (require_if b E c s) = is_backward_check s"
  "is_circle (require_if b E c s) = is_circle s"
  "print_ignored_files (require_if b E c s) = print_ignored_files s"
  "validate_conf_json (require_if b E c s) = validate_conf_json s"
  "validate_id_set (require_if b E c s) = validate_id_set s"
  by (simp_all add: require_if_def)

lemma trace_require: "trace (require E c s) = trace s @ Call c # (if check E c then [] else [SetValid False])"
  by (simp add: require_def call_def set_invalid_def)

lemma grows_refl: "grows P s s"
  unfolding grows_def by (rule exI[of _ True], rule exI[of _ "[]"]) simp

lemma grows_trans: "grows P s t \<Longrightarrow> grows P t u \<Longrightarrow> grows P s u"
proof -
  assume "grows P s t" and "grows P t u"
  then obtain ok1 evs1 ok2 evs2 where
    t: "t = s\<lparr>is_valid := is_valid s \<and> ok1, trace := trace s @ evs1\<rparr>" and p1: "\<forall>ev \<in> set evs1. P ev"
    and u: "u = t\<lparr>is_valid := is_valid t \<and> ok2, trace := trace t @ evs2\<rparr>" and p2: "\<forall>ev \<in> set evs2. P ev"
    unfolding grows_def by blast
  have "u = s\<lparr>is_valid := is_valid s \<and> (ok1 \<and> ok2), trace := trace s @ (evs1 @ evs2)\<rparr>"
    by (simp add: u t)
  moreover have "\<forall>ev \<in> set (evs1 @ evs2). P ev"
    using p1 p2 by auto
  ultimately show "grows P s u"
    unfolding grows_def by blast
qed

lemma grows_weaken: "grows P s t \<Longrightarrow> (\<And>ev. P ev \<Longrightarrow> Q ev) \<Longrightarrow> grows Q s t"
  unfolding grows_def by blast

lemma grows_verdict: "grows P s t \<Longrightarrow> is_valid t \<Longrightarrow> is_valid s"
  unfolding grows_def by auto

lemma grows_trace: "grows P s t \<Longrightarrow> \<exists>evs. trace t = trace s @ evs \<and> (\<forall>ev \<in> set evs. P ev)"
  unfolding grows_def by auto

lemma grows_fields:
  "grows P s t \<Longrightarrow> validate_id_set t = validate_id_set s \<and> use_git t = use_git s
     \<and> branch_name t = branch_name s \<and> is_backward_check t = is_backward_check s
     \<and> prev_ver t = prev_ver s"
  unfolding grows_def by auto

lemma grows_step_require:
  "P (Call c) \<Longrightarrow> P (SetValid False) \<Longrightarrow> grows P s (require E c s)"
  unfolding grows_def
  by (rule exI[of _ "check E c"],
      rule exI[of _ "Call c # (if check E c then [] else [SetValid False])"])
     (simp add: require_def call_def set_invalid_def)

lemma grows_step_forbid:
  "P (Call c) \<Longrightarrow> P (SetValid False) \<Longrightarrow> grows P s (forbid E c s)"
  unfolding grows_def
  by (rule exI[of _ "\<not> check E c"],
      rule exI[of _ "Call c # (if check E c then [SetValid False] else [])"])
     (simp add: forbid_def call_def set_invalid_def)

lemma grows_set_invalid: "P (SetValid False) \<Longrightarrow> grows P s (set_invalid s)"
  unfolding grows_def
  by (rule exI[of _ False], rule exI[of _ "[SetValid False]"]) (simp add: set_invalid_def)

lemma grows_require:
  "grows P s t \<Longrightarrow> P (Call c) \<Longrightarrow> P (SetValid False) \<Longrightarrow> grows P s (require E c t)"
  by (erule grows_trans) (rule grows_step_require)

lemma grows_forbid:
  "grows P s t \<Longrightarrow> P (Call c) \<Longrightarrow> P (SetValid False) \<Longrightarrow> grows P s (forbid E c t)"
  by (erule grows_trans) (rule grows_step_forbid)

lemma grows_require_if:
  "grows P s t \<Longrightarrow> P (Call c) \<Longrightarrow> P (SetValid False) \<Longrightarrow> grows P s (require_if b E c t)"
  by (simp add: require_if_def grows_require)

lemma grows_if:
  "(C \<Longrightarrow> grows P s a) \<Longrightarrow> (\<not> C \<Longrightarrow> grows P s b) \<Longrightarrow> grows P s (if C then a else b)"
  by simp

lemma validate_modified_file_verdict:
  "is_valid (validate_modified_file E s e)
     = (is_valid s \<and> is_valid (validate_modified_file E (s\<lparr>is_valid := True\<rparr>) e))"
  unfolding validate_modified_file_def Let_def
  by simp

lemma grows_validate_modified_file:
  "grows validation_event s (validate_modified_file E s e)"
  unfolding validate_modified_file_def Let_def
  by (intro grows_if grows_require grows_require_if grows_refl) simp_all

lemma grows_validate_modified_files:
  "grows validation_event s (validate_modified_files E s es)"
proof (induction es arbitrary: s)
  case Nil
  show ?case by (simp add: grows_refl)
next
  case (Cons e es)
  show ?case
    using grows_trans[OF grows_validate_modified_file Cons.IH] by simp
qed

lemma grows_validate_added_file:
  "validate_added_file E s f = Inr s' \<Longrightarrow> grows validation_event s s'"
  unfolding validate_added_file_def Let_def
  by (auto split: if_splits intro!: grows_require grows_forbid grows_refl)

lemma grows_validate_added_files:
  "validate_added_files E s fs = Inr s' \<Longrightarrow> grows validation_event s s'"
proof (induction fs arbitrary: s)
  case Nil
  then show ?case by (simp add: grows_refl)
next
  case (Cons f fs)
  then show ?case
    by (auto split: sum.splits dest!: grows_validate_added_file intro: grows_trans)
qed

lemma collect_invalid_files_filter:
  "collect_invalid_files E acc fs =
     acc @ filter (\<lambda>f. ''toversion'' \<notin> fst ` set (get_yaml E f)) fs"
  by (induction fs arbitrary: acc) (simp_all add: Let_def)

lemma validate_no_old_format_cases:
  "validate_no_old_format E s old =
     (if \<exists>f \<in> set old. ''toversion'' \<notin> fst ` set (get_yaml E f) then set_invalid s else s)"
  by (simp add: validate_no_old_format_def collect_invalid_files_filter filter_empty_conv)

lemma grows_validate_no_old_format:
  "grows validation_event s (validate_no_old_format E s old)"
  by (simp add: validate_no_old_format_cases grows_refl grows_set_invalid)

lemma grows_validate_files_of_root:
  "grows validation_event s (validate_files_of_root E root s files)"
proof (induction files arbitrary: s)
  case Nil
  show ?case by (simp add: grows_refl)
next
  case (Cons file_name files)
  have step: "grows validation_event s
      (require E (Structure_is_valid_scheme (path_join root file_name) (use_git s)) s)"
    by (rule grows_step_require) simp_all
  show ?case
    using Cons.IH grows_trans[OF step Cons.IH] by (simp add: Let_def)
qed

lemma grows_validate_inner_dirs:
  "validate_inner_dirs E root s dirs = Inr s' \<Longrightarrow> grows validation_event s s'"
proof (induction dirs arbitrary: s)
  case Nil
  then show ?case by (simp add: grows_refl)
next
  case (Cons d dirs)
  then obtain file_path where
    r: "validate_inner_dirs E root
          (require E (Structure_is_valid_scheme file_path (use_git s)) s) dirs = Inr s'"
    by (auto split: sum.splits)
  have step: "grows validation_event s
      (require E (Structure_is_valid_scheme file_path (use_git s)) s)"
    by (rule grows_step_require) simp_all
  from grows_trans[OF step Cons.IH[OF r]] show ?case .
qed

lemma grows_validate_walk:
  "validate_walk E s w = Inr s' \<Longrightarrow> grows validation_event s s'"
proof (induction w arbitrary: s)
  case Nil
  then show ?case by (simp add: grows_refl)
next
  case (Cons x w)
  obtain root dirs files where x: "x = (root, dirs, files)"
    by (cases x) auto
  show ?case
  proof (cases "root \<in> set (DIR_LIST E)")
    case False
    with Cons x show ?thesis by simp
  next
    case True
    let ?s1 = "validate_files_of_root E root s files"
    have g1: "grows validation_event s ?s1"
      by (rule grows_validate_files_of_root)
    show ?thesis
    proof (cases "root \<in> set (PACKAGE_SUPPORTING_DIRECTORIES E)")
      case False
      with Cons.prems x True have "validate_walk E ?s1 w = Inr s'"
        by (simp add: Let_def)
      from grows_trans[OF g1 Cons.IH[OF this]] show ?thesis .
    next
      case pkg: True
      with Cons.prems x True obtain s2 where
        i: "validate_inner_dirs E root ?s1 dirs = Inr s2" and r: "validate_walk E s2 w = Inr s'"
        by (auto simp: Let_def split: sum.splits)
      from grows_trans[OF g1 grows_trans[OF grows_validate_inner_dirs[OF i] Cons.IH[OF r]]]
      show ?thesis .
    qed
  qed
qed

lemma grows_validate_regexes:
  "validate_regexes E s rs = Inr s' \<Longrightarrow> grows validation_event s s'"
proof (induction rs arbitrary: s)
  case Nil
  then show ?case by (simp add: grows_refl)
next
  case (Cons r rs)
  then obtain s1 where
    w: "validate_walk E s (os_walk E (before_dotstar r)) = Inr s1"
    and rest: "validate_regexes E s1 rs = Inr s'"
    by (auto simp: Let_def split: sum.splits)
  from grows_trans[OF grows_validate_walk[OF w] Cons.IH[OF rest]] show ?case .
qed

lemma grows_validate_all_files:
  "validate_all_files E s = Inr s' \<Longrightarrow> grows validation_event s s'"
  unfolding validate_all_files_def by (rule grows_validate_regexes)

lemma get_modified_and_added_files_state:
  "get_modified_and_added_files E s tag = Inr (s1, m, a, old) \<Longrightarrow>
     s1 = s\<lparr>trace := trace s @
               RunCommand (''git diff --name-status '' @ tag @ ''..''
                 @ (if contains tag ''master'' then ''.'' else '''')
                 @ ''refs/heads/'' @ branch_name s)
               # (if is_circle s then []
                  else [RunCommand ''git diff --name-status --no-merges HEAD'',
                        RunCommand (''git diff --name-status '' @ tag)])\<rparr>"
  unfolding get_modified_and_added_files_def run_def Let_def
  by (auto split: sum.splits prod.splits if_splits)

lemma grows_get_modified_and_added_files:
  "get_modified_and_added_files E s tag = Inr (s1, m, a, old) \<Longrightarrow> grows (\<lambda>ev. True) s s1"
  unfolding grows_def
  by (drule get_modified_and_added_files_state, rule exI[of _ True]) auto

lemma grows_validate_committed_files:
  "validate_committed_files E s = Inr s' \<Longrightarrow> grows (\<lambda>ev. True) s s'"
proof -
  assume r: "validate_committed_files E s = Inr s'"
  then obtain s1 m a old where
    g: "get_modified_and_added_files E s ''origin/master'' = Inr (s1, m, a, old)"
    unfolding validate_committed_files_def by (auto split: sum.splits)
  have g1: "grows (\<lambda>ev. True) s s1"
    by (rule grows_get_modified_and_added_files[OF g])
  have "grows validation_event s1 s'"
  proof (cases "schema_changed_loop E False m")
    case True
    with r g have "validate_all_files E s1 = Inr s'"
      by (simp add: validate_committed_files_def)
    then show ?thesis by (rule grows_validate_all_files)
  next
    case False
    with r g obtain s2 where
      a: "validate_added_files E (validate_modified_files E s1 m) a = Inr s2"
      and s': "s' = validate_no_old_format E s2 old"
      by (auto simp: validate_committed_files_def split: sum.splits)
    from grows_trans[OF grows_validate_modified_files
           grows_trans[OF grows_validate_added_files[OF a] grows_validate_no_old_format]]
    show ?thesis unfolding s' .
  qed
  then have "grows (\<lambda>ev. True) s1 s'"
    by (rule grows_weaken) simp
  with g1 show ?thesis by (rule grows_trans)
qed

lemma grows_validate_against_previous_version:
  "validate_against_previous_version E no_error s = Inr s' \<Longrightarrow> grows (\<lambda>ev. True) s s'"
proof (cases "prev_ver s \<noteq> [] \<and> prev_ver s \<noteq> ''master''")
  case False
  assume "validate_against_previous_version E no_error s = Inr s'"
  with False have "s' = s"
    by (auto simp: validate_against_previous_version_def)
  then show ?thesis by (simp add: grows_refl)
next
  case True
  assume r: "validate_against_previous_version E no_error s = Inr s'"
  with True obtain s1 m a old where
    g: "get_modified_and_added_files E s (prev_ver s) = Inr (s1, m, a, old)"
    unfolding validate_against_previous_version_def by (auto split: sum.splits)
  let ?s2 = "validate_modified_files E s1 m"
  have g2: "grows validation_event s1 ?s2"
    by (rule grows_validate_modified_files)
  have "grows (\<lambda>ev. True) s1 s'"
  proof (cases no_error)
    case False
    with r g True have "s' = ?s2"
      by (simp add: validate_against_previous_version_def Let_def)
    with g2 show ?thesis by (auto intro: grows_weaken)
  next
    case ne: True
    with r g True have s': "s' = ?s2\<lparr>is_valid := is_valid s1,
                                      trace := trace ?s2 @ [SetValid (is_valid s1)]\<rparr>"
      by (simp add: validate_against_previous_version_def Let_def)
    from g2 obtain ok evs where
      s2: "?s2 = s1\<lparr>is_valid := is_valid s1 \<and> ok, trace := trace s1 @ evs\<rparr>"
      unfolding grows_def by blast
    have "s' = s1\<lparr>is_valid := is_valid s1 \<and> True,
                  trace := trace s1 @ (evs @ [SetValid (is_valid s1)])\<rparr>"
      unfolding s' by (subst (1 2) s2) simp
    then show ?thesis
      unfolding grows_def by blast
  qed
  with grows_get_modified_and_added_files[OF g] show ?thesis by (rule grows_trans)
qed

lemma grows_is_valid_structure:
  "is_valid_structure E s = Inr (s', v) \<Longrightarrow> grows (\<lambda>ev. True) s s' \<and> v = is_valid s'"
proof -
  assume r: "is_valid_structure E s = Inr (s', v)"
  let ?s0 = "if validate_conf_json s then require E ConfJson_is_valid_conf_json s else s"
  have g0: "grows (\<lambda>ev. True) s ?s0"
    by (simp add: grows_refl grows_step_require)
  have any: "\<And>a b. grows validation_event a b \<Longrightarrow> grows (\<lambda>ev. True) a b"
    by (erule grows_weaken) simp
  from r have "grows (\<lambda>ev. True) ?s0 s' \<and> v = is_valid s'"
    unfolding is_valid_structure_def Let_def
    by (auto split: sum.splits if_splits
          dest!: grows_validate_committed_files grows_validate_against_previous_version
                 grows_validate_all_files
          intro: grows_trans any)
  with g0 show ?thesis by (auto intro: grows_trans)
qed

section \<open>The old-format gate\<close>

text \<open>
  Claim C4. \<^verbatim>\<open>validate_no_old_format\<close> sets the verdict to false exactly when some file
  of the old-format set has no \<^verbatim>\<open>toversion\<close> key in its document; otherwise it leaves
  the state as it is, so a file with a \<^verbatim>\<open>toversion\<close> key has no effect. The failure is
  the assignment \<^verbatim>\<open>self._is_valid = False\<close>, not an exception: the function always
  returns a state.
\<close>

theorem validate_no_old_format_verdict:
  "validate_no_old_format E s old =
     (if \<exists>f \<in> set old. ''toversion'' \<notin> fst ` set (get_yaml E f) then set_invalid s else s)
   \<and> is_valid (validate_no_old_format E s old) =
       (is_valid s \<and> (\<forall>f \<in> set old. ''toversion'' \<in> fst ` set (get_yaml E f)))"
  by (simp add: validate_no_old_format_cases set_invalid_def)

theorem validate_no_old_format_verdict_witness:
  "validate_no_old_format (example_env example_git) (example_validator ''feature'' False)
     [''Scripts/script-Old.yml''] = example_validator ''feature'' False
   \<and> validate_no_old_format (example_env example_git) (example_validator ''feature'' False)
     [''Scripts/script-Old.yml'', ''Scripts/script-New.yml'']
     = set_invalid (example_validator ''feature'' False)"
  using validate_no_old_format_verdict [of "example_env example_git"
          "example_validator ''feature'' False" "[''Scripts/script-Old.yml'']"]
        validate_no_old_format_verdict [of "example_env example_git"
          "example_validator ''feature'' False"
          "[''Scripts/script-Old.yml'', ''Scripts/script-New.yml'']"]
  by (simp add: example_env_def example_get_yaml_def)

section \<open>The previous-version pass\<close>

lemma fails_modified_validation_state:
  "fails_modified_validation E (s\<lparr>is_valid := v, trace := tr\<rparr>) e
     = fails_modified_validation E s e"
  unfolding fails_modified_validation_def validate_modified_file_def Let_def
  by simp

lemma fails_modified_validation_grows:
  "grows P s t \<Longrightarrow> fails_modified_validation E t e = fails_modified_validation E s e"
  unfolding grows_def by (auto simp: fails_modified_validation_state)

lemma validate_modified_files_verdict:
  "is_valid (validate_modified_files E s es)
     = (is_valid s \<and> (\<forall>e \<in> set es. \<not> fails_modified_validation E s e))"
proof (induction es arbitrary: s)
  case Nil
  show ?case by simp
next
  case (Cons e es)
  let ?t = "validate_modified_file E s e"
  have same: "\<And>e'. fails_modified_validation E ?t e' = fails_modified_validation E s e'"
    by (rule fails_modified_validation_grows[OF grows_validate_modified_file])
  have "is_valid ?t = (is_valid s \<and> \<not> fails_modified_validation E s e)"
    using validate_modified_file_verdict[of E s e]
    by (simp add: fails_modified_validation_def)
  with Cons.IH[of ?t] same show ?case by auto
qed

text \<open>
  Claim C2. Let \<^verbatim>\<open>prev_ver\<close> be non-empty and different from \<^verbatim>\<open>'master'\<close>, and let the
  collection of the previous-version diff return the modified set \<open>m\<close>. Then, whatever
  the verdict was before the call, \<^verbatim>\<open>validate_against_previous_version(no_error=True)\<close>
  returns with the verdict equal to its value before the call, whether or not \<open>m\<close>
  contains failing files; and \<^verbatim>\<open>validate_against_previous_version(no_error=False)\<close>
  returns with the verdict false when \<open>m\<close> contains a file that fails the validation of
  modified files.
\<close>

theorem validate_against_previous_version_no_error:
  assumes "prev_ver s \<noteq> []" and "prev_ver s \<noteq> ''master''"
    and g: "get_modified_and_added_files E s (prev_ver s) = Inr (s1, m, a, old)"
  shows "(\<exists>s'. validate_against_previous_version E True s = Inr s' \<and> is_valid s' = is_valid s)
       \<and> (\<exists>s'. validate_against_previous_version E False s = Inr s'
              \<and> ((\<exists>e \<in> set m. fails_modified_validation E s e) \<longrightarrow> \<not> is_valid s'))"
proof -
  have g1: "grows (\<lambda>ev. True) s s1"
    by (rule grows_get_modified_and_added_files[OF g])
  have v1: "is_valid s1 = is_valid s"
    by (subst get_modified_and_added_files_state[OF g]) simp
  have f: "\<And>e. fails_modified_validation E s1 e = fails_modified_validation E s e"
    by (rule fails_modified_validation_grows[OF g1])
  have "validate_against_previous_version E True s
          = Inr ((validate_modified_files E s1 m)\<lparr>is_valid := is_valid s1,
                  trace := trace (validate_modified_files E s1 m) @ [SetValid (is_valid s1)]\<rparr>)"
    using assms by (simp add: validate_against_previous_version_def Let_def)
  moreover have "validate_against_previous_version E False s
          = Inr (validate_modified_files E s1 m)"
    using assms by (simp add: validate_against_previous_version_def Let_def)
  ultimately show ?thesis
    using v1 f by (simp add: validate_modified_files_verdict)
qed

theorem validate_against_previous_version_no_error_witness:
  "(\<exists>s'. validate_against_previous_version (example_env example_git_master) True
            (example_validator ''master'' False) = Inr s' \<and> is_valid s')
   \<and> (\<exists>s'. validate_against_previous_version (example_env example_git_master) False
            (example_validator ''master'' False) = Inr s' \<and> \<not> is_valid s')"
proof -
  let ?E = "example_env example_git_master" and ?s = "example_validator ''master'' False"
  have p1: "prev_ver ?s \<noteq> []" and p2: "prev_ver ?s \<noteq> ''master''"
    by (simp_all add: example_validator_def)
  have g: "get_modified_and_added_files ?E ?s (prev_ver ?s)
             = Inr (?s\<lparr>trace :=
                      [RunCommand ''git diff --name-status origin/master...refs/heads/master'',
                       RunCommand ''git diff --name-status --no-merges HEAD'',
                       RunCommand ''git diff --name-status origin/master'']\<rparr>,
                    [Path ''Integrations/Bad/Bad.yml''], [], [])"
    by code_simp
  have bad: "fails_modified_validation ?E ?s (Path ''Integrations/Bad/Bad.yml'')"
    by code_simp
  have v: "is_valid ?s"
    by (simp add: example_validator_def)
  from validate_against_previous_version_no_error[OF p1 p2 g] bad v
  show ?thesis by auto
qed

section \<open>Escalation to the full sweep\<close>

lemma schema_changed_loop_iff:
  "schema_changed_loop E b fs
     = (b \<or> (\<exists>f \<in> set fs. checked_type E SCHEMA_REGEX_LIST (entry_path f)))"
  by (induction fs arbitrary: b) auto

text \<open>
  Claim C3. When some element of the collected modified set matches the schema pattern
  (for a rename, its new path), \<^verbatim>\<open>validate_committed_files\<close> is the full sweep
  \<^verbatim>\<open>validate_all_files\<close> on the state left by the collection, and nothing of the
  change-set path runs; otherwise it validates the modified files, then the added
  files, then gates the old-format files, in that order.
\<close>

theorem validate_committed_files_escalation:
  assumes "get_modified_and_added_files E s ''origin/master'' = Inr (s1, m, a, old)"
  shows "validate_committed_files E s =
           (if \<exists>f \<in> set m. checked_type E SCHEMA_REGEX_LIST (entry_path f)
            then validate_all_files E s1
            else (case validate_added_files E (validate_modified_files E s1 m) a of
                    Inl e \<Rightarrow> Inl e
                  | Inr s2 \<Rightarrow> Inr (validate_no_old_format E s2 old)))"
  using assms by (simp add: validate_committed_files_def schema_changed_loop_iff)

theorem validate_committed_files_escalation_witness:
  "validate_committed_files (example_env example_git_schema) (example_validator ''feature'' False)
     = validate_all_files (example_env example_git_schema)
         ((example_validator ''feature'' False)\<lparr>trace :=
            [RunCommand ''git diff --name-status origin/master...refs/heads/feature'',
             RunCommand ''git diff --name-status --no-merges HEAD'',
             RunCommand ''git diff --name-status origin/master'']\<rparr>)
   \<and> validate_committed_files (example_env example_git) (example_validator ''feature'' False)
     = Inr ((example_validator ''feature'' False)\<lparr>trace :=
            [RunCommand ''git diff --name-status origin/master...refs/heads/feature'',
             RunCommand ''git diff --name-status --no-merges HEAD'',
             RunCommand ''git diff --name-status origin/master'',
             Call (Structure_is_file_valid ''Integrations/Foo/Foo.yml'' True False (Some False)),
             Call (Image_is_valid ''Integrations/Foo/Foo.yml''),
             Call (Description_is_valid ''Integrations/Foo/Foo.yml''),
             Call (Integration_is_backward_compatible ''Integrations/Foo/Foo.yml'' None
                     (Some ''origin/master'')),
             Call (Integration_is_valid_integration ''Integrations/Foo/Foo.yml'' None
                     (Some ''origin/master'')),
             Call (Structure_is_file_valid ''Integrations/Bar/Bar.yml'' True False (Some False)),
             Call (Image_is_valid ''Integrations/Bar/Bar.yml''),
             Call (Description_is_valid ''Integrations/Bar/Bar.yml''),
             Call (Integration_is_backward_compatible ''Integrations/Bar/Bar.yml'' None
                     (Some ''origin/master'')),
             Call (Integration_is_valid_integration ''Integrations/Bar/Bar.yml'' None
                     (Some ''origin/master''))]\<rparr>)"
proof -
  let ?E = "example_env example_git_schema" and ?s = "example_validator ''feature'' False"
  let ?runs = "[RunCommand ''git diff --name-status origin/master...refs/heads/feature'',
                RunCommand ''git diff --name-status --no-merges HEAD'',
                RunCommand ''git diff --name-status origin/master'']"
  have g: "get_modified_and_added_files ?E ?s ''origin/master''
             = Inr (?s\<lparr>trace := ?runs\<rparr>,
                    [Path ''Tests/schemas/integration.yml'', Path ''Integrations/Bad/Bad.yml''],
                    [], [])"
    by code_simp
  have sch: "checked_type ?E SCHEMA_REGEX_LIST ''Tests/schemas/integration.yml''"
    by code_simp
  from validate_committed_files_escalation[OF g] sch
  have 1: "validate_committed_files ?E ?s = validate_all_files ?E (?s\<lparr>trace := ?runs\<rparr>)"
    by simp
  let ?F = "example_env example_git"
  have g2: "get_modified_and_added_files ?F ?s ''origin/master''
             = Inr (?s\<lparr>trace := ?runs\<rparr>,
                    [Path ''Integrations/Foo/Foo.yml'', Path ''Integrations/Bar/Bar.yml''],
                    [], [])"
    by code_simp
  have ns: "\<not> (\<exists>f \<in> set [Path ''Integrations/Foo/Foo.yml'', Path ''Integrations/Bar/Bar.yml''].
                  checked_type ?F SCHEMA_REGEX_LIST (entry_path f))"
    by code_simp
  have chain: "(case validate_added_files ?F
                   (validate_modified_files ?F (?s\<lparr>trace := ?runs\<rparr>)
                      [Path ''Integrations/Foo/Foo.yml'', Path ''Integrations/Bar/Bar.yml'']) [] of
                  Inl e \<Rightarrow> Inl e
                | Inr s2 \<Rightarrow> Inr (validate_no_old_format ?F s2 []))
      = Inr (?s\<lparr>trace := ?runs @
             [Call (Structure_is_file_valid ''Integrations/Foo/Foo.yml'' True False (Some False)),
              Call (Image_is_valid ''Integrations/Foo/Foo.yml''),
              Call (Description_is_valid ''Integrations/Foo/Foo.yml''),
              Call (Integration_is_backward_compatible ''Integrations/Foo/Foo.yml'' None
                      (Some ''origin/master'')),
              Call (Integration_is_valid_integration ''Integrations/Foo/Foo.yml'' None
                      (Some ''origin/master'')),
              Call (Structure_is_file_valid ''Integrations/Bar/Bar.yml'' True False (Some False)),
              Call (Image_is_valid ''Integrations/Bar/Bar.yml''),
              Call (Description_is_valid ''Integrations/Bar/Bar.yml''),
              Call (Integration_is_backward_compatible ''Integrations/Bar/Bar.yml'' None
                      (Some ''origin/master'')),
              Call (Integration_is_valid_integration ''Integrations/Bar/Bar.yml'' None
                      (Some ''origin/master''))]\<rparr>)"
    by code_simp
  from validate_committed_files_escalation[OF g2] ns
  have "validate_committed_files ?F ?s =
          (case validate_added_files ?F
                   (validate_modified_files ?F (?s\<lparr>trace := ?runs\<rparr>)
                      [Path ''Integrations/Foo/Foo.yml'', Path ''Integrations/Bar/Bar.yml'']) [] of
                  Inl e \<Rightarrow> Inl e
                | Inr s2 \<Rightarrow> Inr (validate_no_old_format ?F s2 []))"
    by (simp only: if_False)
  then have 2: "validate_committed_files ?F ?s = Inr (?s\<lparr>trace := ?runs @
             [Call (Structure_is_file_valid ''Integrations/Foo/Foo.yml'' True False (Some False)),
              Call (Image_is_valid ''Integrations/Foo/Foo.yml''),
              Call (Description_is_valid ''Integrations/Foo/Foo.yml''),
              Call (Integration_is_backward_compatible ''Integrations/Foo/Foo.yml'' None
                      (Some ''origin/master'')),
              Call (Integration_is_valid_integration ''Integrations/Foo/Foo.yml'' None
                      (Some ''origin/master'')),
              Call (Structure_is_file_valid ''Integrations/Bar/Bar.yml'' True False (Some False)),
              Call (Image_is_valid ''Integrations/Bar/Bar.yml''),
              Call (Description_is_valid ''Integrations/Bar/Bar.yml''),
              Call (Integration_is_backward_compatible ''Integrations/Bar/Bar.yml'' None
                      (Some ''origin/master'')),
              Call (Integration_is_valid_integration ''Integrations/Bar/Bar.yml'' None
                      (Some ''origin/master''))]\<rparr>)"
    by (simp only: chain)
  from 1 2 show ?thesis by simp
qed

section \<open>Modified files when the id set is validated\<close>

lemma validate_modified_file_id_set:
  "validate_id_set s \<Longrightarrow>
     validate_modified_file E s e =
       (if \<not> checked_type E CHECKED_TYPES_REGEXES (entry_path e) then s
        else require E (IDSet_is_file_valid_in_set (entry_path e))
               (require E (structure_call s e) s))"
  by (simp add: validate_modified_file_def structure_call_def Let_def)

lemma grows_validate_modified_file_id_set:
  "validate_id_set s \<Longrightarrow> grows structure_or_id_set_event s (validate_modified_file E s e)"
  by (simp add: validate_modified_file_id_set structure_call_def grows_refl grows_require)

lemma validate_modified_file_id_set_calls:
  "validate_id_set s \<Longrightarrow> checked_type E CHECKED_TYPES_REGEXES (entry_path e) \<Longrightarrow>
     \<exists>evs. trace (validate_modified_file E s e) = trace s @ evs
           \<and> Call (structure_call s e) \<in> set evs
           \<and> Call (IDSet_is_file_valid_in_set (entry_path e)) \<in> set evs"
  by (simp add: validate_modified_file_id_set trace_require)

lemma structure_call_grows: "grows P s t \<Longrightarrow> structure_call t e = structure_call s e"
  by (drule grows_fields) (simp add: structure_call_def)

text \<open>
  Claim C9. When \<^verbatim>\<open>validate_id_set\<close> is set, the events that \<^verbatim>\<open>validate_modified_files\<close>
  adds to the trace are calls of the structure check and of the id-set membership
  check (and assignments of false to the verdict): no image, description, integration,
  script or incident-field method is called, for any modified path. Every element whose
  path is a checked type gets both calls.
\<close>

theorem validate_modified_files_id_set_only:
  assumes "validate_id_set s"
  shows "\<exists>evs. trace (validate_modified_files E s ms) = trace s @ evs
           \<and> (\<forall>ev \<in> set evs. structure_or_id_set_event ev)
           \<and> (\<forall>e \<in> set ms. checked_type E CHECKED_TYPES_REGEXES (entry_path e) \<longrightarrow>
                 Call (structure_call s e) \<in> set evs
                 \<and> Call (IDSet_is_file_valid_in_set (entry_path e)) \<in> set evs)"
  using assms
proof (induction ms arbitrary: s)
  case Nil
  show ?case by simp
next
  case (Cons e ms)
  let ?t = "validate_modified_file E s e"
  have gt: "grows structure_or_id_set_event s ?t"
    by (rule grows_validate_modified_file_id_set[OF Cons.prems])
  then obtain evs1 where
    t1: "trace ?t = trace s @ evs1" and p1: "\<forall>ev \<in> set evs1. structure_or_id_set_event ev"
    by (auto dest: grows_trace)
  have idt: "validate_id_set ?t"
    using grows_fields[OF gt] Cons.prems by simp
  from Cons.IH[OF idt] obtain evs2 where
    t2: "trace (validate_modified_files E ?t ms) = trace ?t @ evs2"
    and p2: "\<forall>ev \<in> set evs2. structure_or_id_set_event ev"
    and c2: "\<forall>e' \<in> set ms. checked_type E CHECKED_TYPES_REGEXES (entry_path e') \<longrightarrow>
                 Call (structure_call ?t e') \<in> set evs2
                 \<and> Call (IDSet_is_file_valid_in_set (entry_path e')) \<in> set evs2"
    by blast
  have c1: "checked_type E CHECKED_TYPES_REGEXES (entry_path e) \<longrightarrow>
              Call (structure_call s e) \<in> set evs1
              \<and> Call (IDSet_is_file_valid_in_set (entry_path e)) \<in> set evs1"
    using validate_modified_file_id_set_calls[OF Cons.prems, of E e] t1 by auto
  have "trace (validate_modified_files E s (e # ms)) = trace s @ (evs1 @ evs2)"
    using t1 t2 by simp
  moreover have "\<forall>ev \<in> set (evs1 @ evs2). structure_or_id_set_event ev"
    using p1 p2 by auto
  moreover have "\<forall>e' \<in> set (e # ms). checked_type E CHECKED_TYPES_REGEXES (entry_path e') \<longrightarrow>
                 Call (structure_call s e') \<in> set (evs1 @ evs2)
                 \<and> Call (IDSet_is_file_valid_in_set (entry_path e')) \<in> set (evs1 @ evs2)"
    using c1 c2 structure_call_grows[OF gt] by auto
  ultimately show ?case by blast
qed

theorem validate_modified_files_id_set_only_witness:
  "validate_id_set (example_validator ''feature'' True)
   \<and> trace (validate_modified_files (example_env example_git) (example_validator ''feature'' True)
        [Path ''Integrations/Bad/Bad.yml'', Renamed ''a.png'' ''b.png''])
     = [Call (Structure_is_file_valid ''Integrations/Bad/Bad.yml'' True False (Some False)),
        SetValid False,
        Call (IDSet_is_file_valid_in_set ''Integrations/Bad/Bad.yml''),
        Call (Structure_is_file_valid ''b.png'' True False (Some True)),
        Call (IDSet_is_file_valid_in_set ''b.png'')]
   \<and> (\<exists>evs. trace (validate_modified_files (example_env example_git)
                (example_validator ''feature'' True)
                [Path ''Integrations/Bad/Bad.yml'', Renamed ''a.png'' ''b.png''])
              = trace (example_validator ''feature'' True) @ evs
            \<and> (\<forall>ev \<in> set evs. structure_or_id_set_event ev))"
proof -
  have h: "validate_id_set (example_validator ''feature'' True)"
    by (simp add: example_validator_def)
  have t: "trace (validate_modified_files (example_env example_git)
        (example_validator ''feature'' True)
        [Path ''Integrations/Bad/Bad.yml'', Renamed ''a.png'' ''b.png''])
     = [Call (Structure_is_file_valid ''Integrations/Bad/Bad.yml'' True False (Some False)),
        SetValid False,
        Call (IDSet_is_file_valid_in_set ''Integrations/Bad/Bad.yml''),
        Call (Structure_is_file_valid ''b.png'' True False (Some True)),
        Call (IDSet_is_file_valid_in_set ''b.png'')]"
    by code_simp
  from validate_modified_files_id_set_only[OF h, of "example_env example_git"
         "[Path ''Integrations/Bad/Bad.yml'', Renamed ''a.png'' ''b.png'']"] h t
  show ?thesis by blast
qed

section \<open>The guard of the previous-version pass\<close>

lemma grows_after_structure_call:
  "checked_type E CHECKED_TYPES_REGEXES (entry_path e) \<Longrightarrow>
     grows validation_event (require E (structure_call s e) s) (validate_modified_file E s e)"
  unfolding validate_modified_file_def structure_call_def Let_def
  by (simp del: require_fields require_if_fields)
     (intro conjI impI grows_refl grows_require grows_require_if; simp)

lemma validate_modified_file_structure_call:
  "checked_type E CHECKED_TYPES_REGEXES (entry_path e) \<Longrightarrow>
     \<exists>evs. trace (validate_modified_file E s e) = trace s @ Call (structure_call s e) # evs"
  by (drule grows_after_structure_call[of E e s], drule grows_trace)
     (auto simp: trace_require)

lemma validate_modified_files_structure_calls:
  "\<exists>evs. trace (validate_modified_files E s ms) = trace s @ evs
         \<and> (\<forall>e \<in> set ms. checked_type E CHECKED_TYPES_REGEXES (entry_path e) \<longrightarrow>
               Call (structure_call s e) \<in> set evs)"
proof (induction ms arbitrary: s)
  case Nil
  show ?case by simp
next
  case (Cons e ms)
  let ?t = "validate_modified_file E s e"
  have gt: "grows validation_event s ?t"
    by (rule grows_validate_modified_file)
  then obtain evs1 where t1: "trace ?t = trace s @ evs1"
    by (auto dest: grows_trace)
  from Cons.IH[of ?t] obtain evs2 where
    t2: "trace (validate_modified_files E ?t ms) = trace ?t @ evs2"
    and c2: "\<forall>e' \<in> set ms. checked_type E CHECKED_TYPES_REGEXES (entry_path e') \<longrightarrow>
                 Call (structure_call ?t e') \<in> set evs2"
    by blast
  have c1: "checked_type E CHECKED_TYPES_REGEXES (entry_path e) \<longrightarrow>
              Call (structure_call s e) \<in> set evs1"
    using validate_modified_file_structure_call[of E e s] t1 by auto
  have "trace (validate_modified_files E s (e # ms)) = trace s @ (evs1 @ evs2)"
    using t1 t2 by simp
  moreover have "\<forall>e' \<in> set (e # ms). checked_type E CHECKED_TYPES_REGEXES (entry_path e') \<longrightarrow>
                 Call (structure_call s e') \<in> set (evs1 @ evs2)"
    using c1 c2 structure_call_grows[OF gt] by auto
  ultimately show ?case by blast
qed

text \<open>
  Claim C10. When \<^verbatim>\<open>prev_ver\<close> is empty or is exactly \<^verbatim>\<open>'master'\<close>,
  \<^verbatim>\<open>validate_against_previous_version\<close> returns the state it was given: no command is
  run, no validator is called, the verdict is untouched. With \<^verbatim>\<open>prev_ver\<close> equal to
  \<^verbatim>\<open>'origin/master'\<close>, which is what the constructor sets by default, the pass runs:
  when the collection of the diff returns, the first new event is the diff of
  \<^verbatim>\<open>origin/master\<close> against the branch, and the structure check is called for every
  modified element whose path is a checked type.
\<close>

theorem validate_against_previous_version_guard:
  "(prev_ver s = [] \<or> prev_ver s = ''master'' \<longrightarrow>
      validate_against_previous_version E no_error s = Inr s)
   \<and> (prev_ver s = ''origin/master'' \<longrightarrow>
        (\<forall>s1 m a old.
           get_modified_and_added_files E s ''origin/master'' = Inr (s1, m, a, old) \<longrightarrow>
           (\<exists>s' evs. validate_against_previous_version E no_error s = Inr s'
              \<and> trace s' = trace s
                   @ RunCommand (''git diff --name-status origin/master...refs/heads/''
                                   @ branch_name s) # evs
              \<and> (\<forall>e \<in> set m. checked_type E CHECKED_TYPES_REGEXES (entry_path e) \<longrightarrow>
                    Call (structure_call s e) \<in> set evs))))
   \<and> (\<forall>s0. default_validator E = Inr s0 \<longrightarrow> prev_ver s0 = ''origin/master'')"
proof (intro conjI impI allI)
  assume "prev_ver s = [] \<or> prev_ver s = ''master''"
  then show "validate_against_previous_version E no_error s = Inr s"
    by (auto simp: validate_against_previous_version_def)
next
  fix s0
  assume "default_validator E = Inr s0"
  then show "prev_ver s0 = ''origin/master''"
    by (auto simp: default_validator_def init_def Let_def split: option.splits)
next
  fix s1 m a old
  assume pv: "prev_ver s = ''origin/master''"
    and g: "get_modified_and_added_files E s ''origin/master'' = Inr (s1, m, a, old)"
  let ?c = "RunCommand (''git diff --name-status origin/master...refs/heads/'' @ branch_name s)"
  let ?s2 = "validate_modified_files E s1 m"
  let ?evs0 = "if is_circle s then []
               else [RunCommand ''git diff --name-status --no-merges HEAD'',
                     RunCommand ''git diff --name-status origin/master'']"
  have cm: "contains ''origin/master'' ''master''"
    by (simp add: startswith_def)
  have s1: "s1 = s\<lparr>trace := trace s @ ?c # ?evs0\<rparr>"
    using get_modified_and_added_files_state[OF g] cm by simp
  have sc: "\<And>e. structure_call s1 e = structure_call s e"
    by (simp add: s1 structure_call_def)
  from validate_modified_files_structure_calls[of E s1 m] obtain evs1 where
    t: "trace ?s2 = trace s1 @ evs1"
    and c: "\<forall>e \<in> set m. checked_type E CHECKED_TYPES_REGEXES (entry_path e) \<longrightarrow>
               Call (structure_call s e) \<in> set evs1"
    unfolding sc by blast
  let ?s' = "if no_error
             then ?s2\<lparr>is_valid := is_valid s1, trace := trace ?s2 @ [SetValid (is_valid s1)]\<rparr>
             else ?s2"
  have r: "validate_against_previous_version E no_error s = Inr ?s'"
    using pv g by (simp add: validate_against_previous_version_def Let_def)
  have "trace ?s' = trace s @ ?c # (?evs0 @ evs1 @ (if no_error then [SetValid (is_valid s1)] else []))"
    using t by (simp add: s1)
  moreover have "\<forall>e \<in> set m. checked_type E CHECKED_TYPES_REGEXES (entry_path e) \<longrightarrow>
       Call (structure_call s e) \<in> set (?evs0 @ evs1 @ (if no_error then [SetValid (is_valid s1)] else []))"
    using c by auto
  ultimately show "\<exists>s' evs. validate_against_previous_version E no_error s = Inr s'
              \<and> trace s' = trace s @ ?c # evs
              \<and> (\<forall>e \<in> set m. checked_type E CHECKED_TYPES_REGEXES (entry_path e) \<longrightarrow>
                    Call (structure_call s e) \<in> set evs)"
    using r by blast
qed

theorem validate_against_previous_version_guard_witness:
  "validate_against_previous_version (example_env example_git_master) True
     ((example_validator ''master'' False)\<lparr>prev_ver := ''master''\<rparr>)
     = Inr ((example_validator ''master'' False)\<lparr>prev_ver := ''master''\<rparr>)
   \<and> (\<exists>s' evs. validate_against_previous_version (example_env example_git_master) True
                   (example_validator ''master'' False) = Inr s'
          \<and> trace s' = RunCommand ''git diff --name-status origin/master...refs/heads/master''
                          # evs
          \<and> Call (Structure_is_file_valid ''Integrations/Bad/Bad.yml'' True False (Some False))
               \<in> set evs)
   \<and> (\<exists>s0. default_validator (example_env example_git_master) = Inr s0
          \<and> prev_ver s0 = ''origin/master'')"
proof -
  let ?E = "example_env example_git_master" and ?s = "example_validator ''master'' False"
  have p: "prev_ver (?s\<lparr>prev_ver := ''master''\<rparr>) = ''master''"
    by simp
  have q: "prev_ver ?s = ''origin/master''"
    by (simp add: example_validator_def)
  have g: "get_modified_and_added_files ?E ?s ''origin/master''
             = Inr (?s\<lparr>trace :=
                      [RunCommand ''git diff --name-status origin/master...refs/heads/master'',
                       RunCommand ''git diff --name-status --no-merges HEAD'',
                       RunCommand ''git diff --name-status origin/master'']\<rparr>,
                    [Path ''Integrations/Bad/Bad.yml''], [], [])"
    by code_simp
  have c: "checked_type ?E CHECKED_TYPES_REGEXES (entry_path (Path ''Integrations/Bad/Bad.yml''))"
    by code_simp
  have sc: "structure_call ?s (Path ''Integrations/Bad/Bad.yml'')
              = Structure_is_file_valid ''Integrations/Bad/Bad.yml'' True False (Some False)"
    by code_simp
  have b: "branch_name ?s = ''master''" and t: "trace ?s = []"
    by (simp_all add: example_validator_def)
  have d: "default_validator ?E
             = Inr (?s\<lparr>trace := [RunCommand ''git branch'']\<rparr>)"
    by code_simp
  note G = validate_against_previous_version_guard
  from G[of "?s\<lparr>prev_ver := ''master''\<rparr>" ?E True] p
  have 1: "validate_against_previous_version ?E True (?s\<lparr>prev_ver := ''master''\<rparr>)
             = Inr (?s\<lparr>prev_ver := ''master''\<rparr>)"
    by blast
  from G[of ?s ?E True] q g
  obtain s' evs where
    r: "validate_against_previous_version ?E True ?s = Inr s'"
    and tr: "trace s' = trace ?s
               @ RunCommand (''git diff --name-status origin/master...refs/heads/''
                               @ branch_name ?s) # evs"
    and cs: "\<forall>e \<in> set [Path ''Integrations/Bad/Bad.yml''].
               checked_type ?E CHECKED_TYPES_REGEXES (entry_path e) \<longrightarrow>
               Call (structure_call ?s e) \<in> set evs"
    by blast
  from cs c sc have 2: "Call (Structure_is_file_valid ''Integrations/Bad/Bad.yml'' True False
                               (Some False)) \<in> set evs"
    by simp
  from G[of ?s ?E True] d have 3: "prev_ver (?s\<lparr>trace := [RunCommand ''git branch'']\<rparr>)
                                     = ''origin/master''"
    by blast
  from 1 r tr 2 d 3 show ?thesis
    by (simp add: b t)
qed

section \<open>The verdict across a run\<close>

text \<open>
  Claim C6, as the code has it. The validation passes only ever assign false to the
  verdict, so across \<^verbatim>\<open>validate_committed_files\<close>, \<^verbatim>\<open>validate_all_files\<close>,
  \<^verbatim>\<open>validate_against_previous_version\<close> and the whole of \<^verbatim>\<open>is_valid_structure\<close> a verdict
  that is false before is false after, and the value returned is the final verdict. The
  one assignment that can write true is the restore at the end of
  \<^verbatim>\<open>validate_against_previous_version(no_error=True)\<close>: it writes the value the verdict
  had before the call, after the validation of the modified files may have set it to
  false.
\<close>

theorem verdict_only_lowered_across_steps:
  "(\<forall>s'. validate_committed_files E s = Inr s' \<longrightarrow> is_valid s' \<longrightarrow> is_valid s)
   \<and> (\<forall>s'. validate_all_files E s = Inr s' \<longrightarrow> is_valid s' \<longrightarrow> is_valid s)
   \<and> (\<forall>s'. validate_against_previous_version E no_error s = Inr s'
          \<longrightarrow> is_valid s' \<longrightarrow> is_valid s)
   \<and> (\<forall>s' v. is_valid_structure E s = Inr (s', v)
          \<longrightarrow> v = is_valid s' \<and> (v \<longrightarrow> is_valid s))
   \<and> (\<exists>evs. trace (validate_modified_files E s ms) = trace s @ evs
          \<and> SetValid True \<notin> set evs)
   \<and> (\<forall>s'. validate_added_files E s fs = Inr s'
          \<longrightarrow> (\<exists>evs. trace s' = trace s @ evs \<and> SetValid True \<notin> set evs))
   \<and> (\<exists>evs. trace (validate_no_old_format E s old) = trace s @ evs
          \<and> SetValid True \<notin> set evs)
   \<and> (\<forall>s'. validate_all_files E s = Inr s'
          \<longrightarrow> (\<exists>evs. trace s' = trace s @ evs \<and> SetValid True \<notin> set evs))"
proof -
  have w: "\<exists>evs. trace b = trace a @ evs \<and> SetValid True \<notin> set evs"
    if "grows validation_event a b" for a b
  proof -
    from grows_trace[OF that] obtain evs where
      t: "trace b = trace a @ evs" and p: "\<forall>ev \<in> set evs. validation_event ev"
      by blast
    have "SetValid True \<notin> set evs"
    proof
      assume "SetValid True \<in> set evs"
      with p have "validation_event (SetValid True)" by blast
      then show False by simp
    qed
    with t show ?thesis by blast
  qed
  show ?thesis
    by (intro conjI allI impI w)
       (auto dest: grows_validate_committed_files grows_validate_all_files
          grows_validate_against_previous_version grows_is_valid_structure grows_verdict
          intro: grows_validate_modified_files grows_validate_added_files
          grows_validate_no_old_format)
qed

theorem verdict_only_lowered_across_steps_witness:
  "is_valid_structure (example_env example_git_schema) (example_validator ''feature'' False)
     = Inr ((example_validator ''feature'' False)\<lparr>trace :=
          [Call ConfJson_is_valid_conf_json,
           RunCommand ''git diff --name-status origin/master...refs/heads/feature'',
           RunCommand ''git diff --name-status --no-merges HEAD'',
           RunCommand ''git diff --name-status origin/master'',
           RunCommand ''git diff --name-status origin/master...refs/heads/feature'',
           RunCommand ''git diff --name-status --no-merges HEAD'',
           RunCommand ''git diff --name-status origin/master'',
           Call (Structure_is_file_valid ''Integrations/Bad/Bad.yml'' True False (Some False)),
           SetValid False,
           Call (Image_is_valid ''Integrations/Bad/Bad.yml''),
           Call (Description_is_valid ''Integrations/Bad/Bad.yml''),
           Call (Integration_is_backward_compatible ''Integrations/Bad/Bad.yml'' None
                   (Some ''origin/master'')),
           Call (Integration_is_valid_integration ''Integrations/Bad/Bad.yml'' None
                   (Some ''origin/master'')),
           SetValid True]\<rparr>, True)
   \<and> is_valid (example_validator ''feature'' False)"
proof -
  let ?E = "example_env example_git_schema"
  let ?s = "example_validator ''feature'' False"
  let ?S = "?s\<lparr>trace :=
          [Call ConfJson_is_valid_conf_json,
           RunCommand ''git diff --name-status origin/master...refs/heads/feature'',
           RunCommand ''git diff --name-status --no-merges HEAD'',
           RunCommand ''git diff --name-status origin/master'',
           RunCommand ''git diff --name-status origin/master...refs/heads/feature'',
           RunCommand ''git diff --name-status --no-merges HEAD'',
           RunCommand ''git diff --name-status origin/master'',
           Call (Structure_is_file_valid ''Integrations/Bad/Bad.yml'' True False (Some False)),
           SetValid False,
           Call (Image_is_valid ''Integrations/Bad/Bad.yml''),
           Call (Description_is_valid ''Integrations/Bad/Bad.yml''),
           Call (Integration_is_backward_compatible ''Integrations/Bad/Bad.yml'' None
                   (Some ''origin/master'')),
           Call (Integration_is_valid_integration ''Integrations/Bad/Bad.yml'' None
                   (Some ''origin/master'')),
           SetValid True]\<rparr>"
  have full: "is_valid_structure ?E ?s = Inr (?S, True)"
    by code_simp
  from verdict_only_lowered_across_steps[of ?E ?s] full have "is_valid ?s"
    by blast
  with full show ?thesis by simp
qed

text \<open>
  On \<^verbatim>\<open>master\<close> with an uncommitted change to a file that fails the structure check,
  the verdict starts true, is set to false by the previous-version pass and is then
  restored to true within the same call of \<^verbatim>\<open>is_valid_structure\<close>.
\<close>

theorem verdict_raised_after_restore_counterexample:
  "is_valid (example_validator ''master'' False)
   \<and> is_valid_structure (example_env example_git_master) (example_validator ''master'' False)
     = Inr ((example_validator ''master'' False)\<lparr>trace :=
          [Call ConfJson_is_valid_conf_json,
           RunCommand ''git diff --name-status origin/master...refs/heads/master'',
           RunCommand ''git diff --name-status --no-merges HEAD'',
           RunCommand ''git diff --name-status origin/master'',
           Call (Structure_is_file_valid ''Integrations/Bad/Bad.yml'' True False (Some False)),
           SetValid False,
           Call (Image_is_valid ''Integrations/Bad/Bad.yml''),
           Call (Description_is_valid ''Integrations/Bad/Bad.yml''),
           Call (Integration_is_backward_compatible ''Integrations/Bad/Bad.yml'' None
                   (Some ''origin/master'')),
           Call (Integration_is_valid_integration ''Integrations/Bad/Bad.yml'' None
                   (Some ''origin/master'')),
           SetValid True]\<rparr>, True)
   \<and> verdict_writes
        [Call ConfJson_is_valid_conf_json,
         RunCommand ''git diff --name-status origin/master...refs/heads/master'',
         RunCommand ''git diff --name-status --no-merges HEAD'',
         RunCommand ''git diff --name-status origin/master'',
         Call (Structure_is_file_valid ''Integrations/Bad/Bad.yml'' True False (Some False)),
         SetValid False,
         Call (Image_is_valid ''Integrations/Bad/Bad.yml''),
         Call (Description_is_valid ''Integrations/Bad/Bad.yml''),
         Call (Integration_is_backward_compatible ''Integrations/Bad/Bad.yml'' None
                 (Some ''origin/master'')),
         Call (Integration_is_valid_integration ''Integrations/Bad/Bad.yml'' None
                 (Some ''origin/master'')),
         SetValid True] = [False, True]"
  by code_simp

section \<open>Renamed code files\<close>






section \<open>Hidden files\<close>


section \<open>The four sets of one classification\<close>

lemma placed_simps [simp]:
  "placed (Inl e) S = Inl e"
  "placed (Inr pl) S = Inr (place pl S)"
  by (simp_all add: placed_def)















end
